(* ===== verification/Prelude.thy ===== *)
theory Prelude
  imports Main "HOL-Library.Sublist" "HOL-Library.Multiset"
begin

text \<open>
  Shared vocabulary of the cuppa development: Go panics as values of a sum type, the
  collections of lemmas the component theories feed, and generic facts about suffixes
  of strings (the regular-expression engine records positions as lengths of the
  remaining input, so suffixes are its basic currency).
\<close>

section \<open>Go runtime failures\<close>

text \<open>
  A Go program that indexes a slice out of range or calls a method on a nil pointer
  panics; nothing in cuppa recovers, so the panic ends the whole command. The model
  returns such a panic as \<open>Inl\<close> of a \<open>'a go\<close> value.
\<close>

datatype go_panic = Index_out_of_range | Nil_dereference

type_synonym 'a go = "go_panic + 'a"

definition go_bind :: "'a go \<Rightarrow> ('a \<Rightarrow> 'b go) \<Rightarrow> 'b go" where
  "go_bind m f = (case m of Inl e \<Rightarrow> Inl e | Inr x \<Rightarrow> f x)"

text \<open>\<open>a[i], a[j] = a[j], a[i]\<close> on a slice: both indices are checked first.\<close>

definition go_swap :: "nat \<Rightarrow> nat \<Rightarrow> 'a list \<Rightarrow> 'a list go" where
  "go_swap i j xs =
     (if i < length xs \<and> j < length xs then Inr (xs[i := xs ! j, j := xs ! i])
      else Inl Index_out_of_range)"

named_theorems regexp_simps "evaluation rules of the regular-expression engine"
named_theorems model_simps "unfolding rules of the adapters and the command"

lemma go_bind_Inr [simp]: "go_bind (Inr x) f = f x"
  by (simp add: go_bind_def)

lemma go_bind_Inl [simp]: "go_bind (Inl e) f = Inl e"
  by (simp add: go_bind_def)

lemma go_bind_eq_Inr:
  "go_bind m f = Inr y \<longleftrightarrow> (\<exists>x. m = Inr x \<and> f x = Inr y)"
  by (cases m) auto

lemma go_bind_isl:
  "isl (go_bind m f) \<longleftrightarrow> isl m \<or> (\<exists>x. m = Inr x \<and> isl (f x))"
  by (cases m) auto

section \<open>Lists\<close>

lemma find_append [simp]:
  "find P (xs @ ys) = (case find P xs of None \<Rightarrow> find P ys | Some x \<Rightarrow> Some x)"
  by (induction xs) auto

lemma remdups_insert_dup: "x \<in> set ys \<Longrightarrow> remdups (xs @ x # ys) = remdups (xs @ ys)"
  by (induction xs) auto

text \<open>The first index of a range that satisfies a test.\<close>

lemma find_map_upt_first:
  assumes "k < n" and "P (f k)" and "\<And>j. j < k \<Longrightarrow> \<not> P (f j)"
  shows "find P (map f [0..<n]) = Some (f k)"
proof -
  from assms(1) have "[0..<n] = [0..<k] @ k # [Suc k..<n]"
    using upt_add_eq_append[of 0 k "n - k"] upt_conv_Cons[of k n] by simp
  moreover have "find P (map f [0..<k]) = None"
    using assms(3) by (auto simp: find_None_iff)
  ultimately show ?thesis using assms(2) by simp
qed

section \<open>Suffixes\<close>

lemma suffix_drop_length:
  assumes "suffix t q"
  shows "drop (length q - length t) q = t"
  using assms by (auto simp: suffix_def)

lemma suffix_Cons_right [intro]: "suffix t xs \<Longrightarrow> suffix t (x # xs)"
  by (auto simp: suffix_def)

lemma suffix_length_le: "suffix t q \<Longrightarrow> length t \<le> length q"
  by (auto simp: suffix_def)

lemma suffix_Cons_cases:
  "suffix t (x # xs) \<longleftrightarrow> t = x # xs \<or> suffix t xs"
  by (auto simp: suffix_def Cons_eq_append_conv)

lemma take_drop_suffix_eq:
  assumes "suffix t q" and "a \<le> length t"
  shows "take n (drop (length t - a) t) = take n (drop (length q - a) q)"
proof -
  obtain p where q: "q = p @ t" using assms(1) by (auto simp: suffix_def)
  then have "drop (length q - a) q = drop (length t - a) t"
    using assms(2) by simp
  then show ?thesis by simp
qed

end
