(* ===== verification/Go_Regexp.thy ===== *)
theory Go_Regexp
  imports Prelude
begin

text \<open>
  The fragment of Go's \<open>regexp\<close> package that the SourceForge adapter uses
  (\<open>regexp.MustCompile\<close>; \<open>FindStringSubmatch\<close> on top of it is in Go_Find): literals, \<open>.\<close>, \<open>\d\<close>,
  \<open>\w\<close>, concatenation, alternation, greedy and lazy repetition, capturing groups and
  the end-of-text anchor \<open>$\<close>. Go's package promises leftmost-first matching: the match
  that starts earliest in the input and, among those, the one a backtracking engine
  would find first. The engine below is such a backtracking engine, written as a
  matcher over an explicit continuation (a list of items still to match), so that it is
  first-order and its termination is a measure. A capture position is recorded as the
  length of the remaining input, so a match found inside a suffix of a string carries
  the same positions as the same match found inside the whole string.
\<close>

section \<open>Syntax\<close>

datatype cls = Any_char | Digit | Word | Lit char

datatype re =
    Empty
  | Cls cls
  | Cat re re
  | Alt re re
  | Star bool re  \<comment> \<open>\<open>True\<close>: greedy \<open>*\<close>, \<open>False\<close>: lazy \<open>*?\<close>\<close>
  | Group nat re
  | End_text

text \<open>The continuation items: a regular expression still to match, the end of a
  capturing group opened at a position, a repetition with its remaining iteration
  budget, and the check that one iteration consumed input.\<close>

datatype item = R re | Close nat nat | Loop bool nat re | Progress nat

type_synonym caps = "(nat \<times> nat \<times> nat) list"

definition is_digit :: "char \<Rightarrow> bool" where
  "is_digit c = (48 \<le> (of_char c :: nat) \<and> (of_char c :: nat) \<le> 57)"

definition is_word :: "char \<Rightarrow> bool" where
  "is_word c = (let n = (of_char c :: nat) in
     (48 \<le> n \<and> n \<le> 57) \<or> (65 \<le> n \<and> n \<le> 90) \<or> (97 \<le> n \<and> n \<le> 122) \<or> n = 95)"

fun cls_match :: "cls \<Rightarrow> char \<Rightarrow> bool" where
  "cls_match Any_char c = (c \<noteq> CHR ''\<newline>'')"
| "cls_match Digit c = is_digit c"
| "cls_match Word c = is_word c"
| "cls_match (Lit d) c = (c = d)"

text \<open>Derived forms of the concrete syntax.\<close>

definition lit :: "string \<Rightarrow> re" where
  "lit s = foldr (\<lambda>c r. Cat (Cls (Lit c)) r) s Empty"

definition seq :: "re list \<Rightarrow> re" where
  "seq rs = foldr Cat rs Empty"

definition plus :: "bool \<Rightarrow> re \<Rightarrow> re" where
  "plus g r = Cat r (Star g r)"

definition opt :: "re \<Rightarrow> re" where
  "opt r = Alt r Empty"

definition any_re :: re where
  "any_re = Cls Any_char"

lemmas re_syntax_defs [regexp_simps] = lit_def seq_def plus_def opt_def any_re_def

section \<open>The backtracking matcher\<close>

text \<open>
  Termination measure: a repetition may iterate at most once per remaining character
  (each iteration must consume input), so its weight grows with the length of the
  input; every step of the matcher lowers the total weight of the continuation.
\<close>

fun wre :: "nat \<Rightarrow> re \<Rightarrow> nat" where
  "wre L Empty = 1"
| "wre L (Cls c) = 1"
| "wre L (Cat a b) = wre L a + wre L b + 1"
| "wre L (Alt a b) = wre L a + wre L b + 1"
| "wre L (Star g r) = (L + 1) * (wre L r + 2) + 1"
| "wre L (Group i r) = wre L r + 2"
| "wre L End_text = 1"

fun witem :: "nat \<Rightarrow> item \<Rightarrow> nat" where
  "witem L (R r) = wre L r"
| "witem L (Close i p) = 1"
| "witem L (Loop g n r) = (n + 1) * (wre L r + 2)"
| "witem L (Progress p) = 1"

fun wk :: "nat \<Rightarrow> item list \<Rightarrow> nat" where
  "wk L [] = 0"
| "wk L (i # k) = witem L i + wk L k"

lemma wre_mono: "L \<le> L' \<Longrightarrow> wre L r \<le> wre L' r"
  by (induction r) (auto intro!: add_mono mult_le_mono)

lemma witem_mono: "L \<le> L' \<Longrightarrow> witem L i \<le> witem L' i"
  by (cases i) (auto intro!: wre_mono mult_le_mono2 simp del: mult_Suc mult_Suc_right)

lemma wk_mono: "L \<le> L' \<Longrightarrow> wk L k \<le> wk L' k"
  by (induction k) (auto intro!: add_mono witem_mono)

lemma wk_Suc: "wk L k < Suc (wk (Suc L) k)"
  using wk_mono[of L "Suc L" k] by simp

function mt :: "item list \<Rightarrow> string \<Rightarrow> caps \<Rightarrow> (string \<times> caps) option" where
  "mt [] s c = Some (s, c)"
| "mt (R Empty # k) s c = mt k s c"
| "mt (R (Cls cl) # k) s c =
     (case s of [] \<Rightarrow> None | x # xs \<Rightarrow> if cls_match cl x then mt k xs c else None)"
| "mt (R (Cat a b) # k) s c = mt (R a # R b # k) s c"
| "mt (R (Alt a b) # k) s c =
     (case mt (R a # k) s c of None \<Rightarrow> mt (R b # k) s c | Some r \<Rightarrow> Some r)"
| "mt (R (Star g r) # k) s c = mt (Loop g (length s) r # k) s c"
| "mt (R (Group i r) # k) s c = mt (R r # Close i (length s) # k) s c"
| "mt (R End_text # k) s c = (if s = [] then mt k s c else None)"
| "mt (Close i p # k) s c = mt k s ((i, p, length s) # c)"
| "mt (Progress p # k) s c = (if length s < p then mt k s c else None)"
| "mt (Loop g 0 r # k) s c = mt k s c"
| "mt (Loop g (Suc n) r # k) s c =
     (if g then
        (case mt (R r # Progress (length s) # Loop g n r # k) s c of
           None \<Rightarrow> mt k s c | Some x \<Rightarrow> Some x)
      else
        (case mt k s c of
           None \<Rightarrow> mt (R r # Progress (length s) # Loop g n r # k) s c | Some x \<Rightarrow> Some x))"
  by pat_completeness auto

termination
  by (relation "measure (\<lambda>(k, s, c). wk (length s) k)") (auto simp: wk_Suc)

text \<open>
  The reference semantics: every way the continuation can match, in the order of
  preference a backtracking engine tries them (left alternative first; for a greedy
  repetition one more iteration first, for a lazy one stopping first).
\<close>

function mt_all :: "item list \<Rightarrow> string \<Rightarrow> caps \<Rightarrow> (string \<times> caps) list" where
  "mt_all [] s c = [(s, c)]"
| "mt_all (R Empty # k) s c = mt_all k s c"
| "mt_all (R (Cls cl) # k) s c =
     (case s of [] \<Rightarrow> [] | x # xs \<Rightarrow> if cls_match cl x then mt_all k xs c else [])"
| "mt_all (R (Cat a b) # k) s c = mt_all (R a # R b # k) s c"
| "mt_all (R (Alt a b) # k) s c = mt_all (R a # k) s c @ mt_all (R b # k) s c"
| "mt_all (R (Star g r) # k) s c = mt_all (Loop g (length s) r # k) s c"
| "mt_all (R (Group i r) # k) s c = mt_all (R r # Close i (length s) # k) s c"
| "mt_all (R End_text # k) s c = (if s = [] then mt_all k s c else [])"
| "mt_all (Close i p # k) s c = mt_all k s ((i, p, length s) # c)"
| "mt_all (Progress p # k) s c = (if length s < p then mt_all k s c else [])"
| "mt_all (Loop g 0 r # k) s c = mt_all k s c"
| "mt_all (Loop g (Suc n) r # k) s c =
     (if g then mt_all (R r # Progress (length s) # Loop g n r # k) s c @ mt_all k s c
      else mt_all k s c @ mt_all (R r # Progress (length s) # Loop g n r # k) s c)"
  by pat_completeness auto

termination
  by (relation "measure (\<lambda>(k, s, c). wk (length s) k)") (auto simp: wk_Suc)

fun num_groups :: "re \<Rightarrow> nat" where
  "num_groups (Cat a b) = num_groups a + num_groups b"
| "num_groups (Alt a b) = num_groups a + num_groups b"
| "num_groups (Star g r) = num_groups r"
| "num_groups (Group i r) = Suc (num_groups r)"
| "num_groups _ = 0"

text \<open>An expression is anchored when every way of matching it passes the end-of-text
  anchor \<open>$\<close> last, so that a match always extends to the end of the input.\<close>

fun anchored :: "re \<Rightarrow> bool" where
  "anchored End_text = True"
| "anchored (Cat a b) = (anchored a \<or> anchored b)"
| "anchored (Alt a b) = (anchored a \<and> anchored b)"
| "anchored (Group i r) = anchored r"
| "anchored _ = False"

section \<open>Lemmas on the matcher\<close>

text \<open>
  The reference semantics gives an induction rule with an unconditional hypothesis for
  every branch; the backtracking matcher is its first element. The continuation lemmas
  say that a match of \<open>k1 @ K\<close> runs \<open>K\<close> on a suffix of the input, and that
  \<open>K\<close> matters only on suffixes.
\<close>

lemma mt_eq_first: "mt k s c = (case mt_all k s c of [] \<Rightarrow> None | x # _ \<Rightarrow> Some x)"
proof (induction k s c rule: mt_all.induct)
qed (auto split: option.splits list.splits)

lemma mt_all_suffix: "(s', c') \<in> set (mt_all k s c) \<Longrightarrow> suffix s' s"
proof (induction k s c rule: mt_all.induct)
qed (auto split: if_splits list.splits intro: suffix_Cons_right)

lemma mt_all_cont:
  "res \<in> set (mt_all (k1 @ K) s c) \<Longrightarrow> \<exists>s2 c2. suffix s2 s \<and> res \<in> set (mt_all K s2 c2)"
proof (induction k1 s c rule: mt_all.induct)
  case (3 cl k s c)
  then show ?case
    by (cases s) (simp_all split: if_splits, blast intro: suffix_Cons_right)
qed (auto split: if_splits)

lemma mt_all_append_cong:
  "(\<And>s2 c2. suffix s2 s \<Longrightarrow> mt_all K s2 c2 = mt_all K' s2 c2) \<Longrightarrow>
   mt_all (k1 @ K) s c = mt_all (k1 @ K') s c"
proof (induction k1 s c rule: mt_all.induct)
  case (3 cl k s c)
  then show ?case
    by (cases s) (simp_all, blast intro: suffix_Cons_right)
qed (auto split: if_splits)

subsection \<open>Repetition budget\<close>

lemma mt_all_Progress_0: "mt_all (R r # Progress 0 # K) s c = []"
proof -
  have "res \<notin> set (mt_all ([R r] @ Progress 0 # K) s c)" for res
    using mt_all_cont[of res "[R r]" "Progress 0 # K" s c] by auto
  then show ?thesis by (metis append_Cons append_Nil last_in_set list.distinct(1) ex_in_conv set_empty)
qed

lemma mt_all_loop_fuel:
  "length s \<le> n \<Longrightarrow> length s \<le> m \<Longrightarrow> mt_all (Loop g n r # k) s c = mt_all (Loop g m r # k) s c"
proof (induction "length s" arbitrary: s n m c rule: less_induct)
  case less
  have iter: "mt_all (R r # Progress (length s) # Loop g n' r # k) s c =
              mt_all (R r # Progress (length s) # Loop g m' r # k) s c"
    if "length s \<le> Suc n'" "length s \<le> Suc m'" for n' m'
  proof -
    have "mt_all ([R r] @ Progress (length s) # Loop g n' r # k) s c =
          mt_all ([R r] @ Progress (length s) # Loop g m' r # k) s c"
    proof (rule mt_all_append_cong)
      fix s2 c2 assume "suffix s2 s"
      show "mt_all (Progress (length s) # Loop g n' r # k) s2 c2 =
            mt_all (Progress (length s) # Loop g m' r # k) s2 c2"
        using less.hyps[of s2 n' m' c2] that by auto
    qed
    then show ?thesis by simp
  qed
  show ?case
  proof (cases n)
    case 0
    with less.prems have "s = []" by simp
    then show ?thesis using 0 mt_all_Progress_0 by (cases m) auto
  next
    case (Suc n')
    show ?thesis
    proof (cases m)
      case 0
      with less.prems have "s = []" by simp
      then show ?thesis using Suc 0 mt_all_Progress_0 by auto
    next
      case (Suc m')
      with \<open>n = Suc n'\<close> less.prems iter[of n' m'] show ?thesis by (cases g) simp_all
    qed
  qed
qed


subsection \<open>Anchoring and capture positions\<close>

lemma mt_all_anchored:
  "anchored r \<Longrightarrow> (s', c') \<in> set (mt_all (R r # k) s c) \<Longrightarrow> s' = []"
proof (induction r arbitrary: k s c)
  case (Cat a b)
  show ?case
  proof (cases "anchored a")
    case True
    with Cat.prems Cat.IH(1)[of "R b # k"] show ?thesis by simp
  next
    case False
    with Cat.prems have "anchored b" by simp
    from Cat.prems(2) have "(s', c') \<in> set (mt_all ([R a] @ R b # k) s c)" by simp
    then obtain s2 c2 where "(s', c') \<in> set (mt_all (R b # k) s2 c2)"
      by (blast dest: mt_all_cont)
    with \<open>anchored b\<close> show ?thesis by (rule Cat.IH(2))
  qed
next
  case (Alt a b)
  then show ?case by auto
next
  case (Group i r)
  then show ?case by (auto intro: Group.IH[of "Close i (length s) # k"])
next
  case End_text
  then show ?case by (auto split: if_splits dest: mt_all_suffix)
qed auto

definition closes_ok :: "nat \<Rightarrow> string \<Rightarrow> item list \<Rightarrow> bool" where
  "closes_ok L s k = (\<forall>i p. Close i p \<in> set k \<longrightarrow> length s \<le> p \<and> p \<le> L)"

definition caps_ok :: "nat \<Rightarrow> caps \<Rightarrow> bool" where
  "caps_ok L d = (\<forall>(i, a, b) \<in> set d. b \<le> a \<and> a \<le> L)"

lemma closes_ok_simps [simp]:
  "closes_ok L s [] = True"
  "closes_ok L s (R r # k) = closes_ok L s k"
  "closes_ok L s (Progress p # k) = closes_ok L s k"
  "closes_ok L s (Loop g n r # k) = closes_ok L s k"
  "closes_ok L s (Close i p # k) = (length s \<le> p \<and> p \<le> L \<and> closes_ok L s k)"
  by (auto simp: closes_ok_def)

lemma closes_ok_tl: "closes_ok L (x # xs) k \<Longrightarrow> closes_ok L xs k"
  unfolding closes_ok_def by (metis Suc_leD length_Cons)

lemma mt_all_caps:
  "(s', c') \<in> set (mt_all k s c) \<Longrightarrow> length s \<le> L \<Longrightarrow> closes_ok L s k \<Longrightarrow>
   \<exists>d. c' = d @ c \<and> caps_ok L d"
proof (induction k s c rule: mt_all.induct)
  case (3 cl k s c)
  then show ?case by (cases s) (auto split: if_splits intro: closes_ok_tl)
next
  case (9 i p k s c)
  then obtain d where "c' = d @ (i, p, length s) # c" "caps_ok L d"
    by auto
  moreover have "length s \<le> p \<and> p \<le> L" using "9.prems" by auto
  ultimately show ?case
    by (intro exI[of _ "d @ [(i, p, length s)]"]) (auto simp: caps_ok_def)
qed (auto simp: caps_ok_def split: if_splits)

subsection \<open>The whole expression as group 0\<close>

lemma mt_Some_mem: "mt k s c = Some res \<Longrightarrow> res \<in> set (mt_all k s c)"
  by (simp add: mt_eq_first split: list.splits)

lemma group0_cap:
  assumes "mt [R (Group 0 r)] t [] = Some (s', c)"
  shows "\<exists>c2. c = (0, length t, length s') # c2"
proof -
  from assms have "(s', c) \<in> set (mt_all ([R r] @ [Close 0 (length t)]) t [])"
    by (auto dest!: mt_Some_mem)
  then obtain s2 c2 where "(s', c) \<in> set (mt_all [Close 0 (length t)] s2 c2)"
    by (blast dest: mt_all_cont)
  then show ?thesis by auto
qed

lemma group0_caps_ok:
  assumes "mt [R (Group 0 r)] t [] = Some (s', c)"
  shows "caps_ok (length t) c"
  using mt_all_caps[OF mt_Some_mem[OF assms], of "length t"] by auto

lemma group0_anchored:
  assumes "anchored r" and "mt [R (Group 0 r)] t [] = Some (s', c)"
  shows "s' = []"
proof -
  from assms(2) have "(s', c) \<in> set (mt_all [R (Group 0 r)] t [])" by (rule mt_Some_mem)
  with assms(1) show ?thesis using mt_all_anchored[of "Group 0 r"] by auto
qed

subsection \<open>The budget of a repetition suffices\<close>

text \<open>The iteration budget that a repetition receives, the length of the remaining
  input, is enough: any larger budget gives the same result. Hence the budget is not
  observable, and \<open>mt\<close> behaves as Go's engine, which has none.\<close>

lemma mt_repetition_budget:
  "length s \<le> n \<Longrightarrow> mt (Loop g n r # k) s c = mt (Loop g (length s) r # k) s c"
  using mt_all_loop_fuel[of s n "length s" g r k c] by (simp only: mt_eq_first order_refl)

lemma mt_repetition_budget_example:
  "length ''12'' \<le> (7::nat) \<and>
   mt [Loop True 7 (Cls Digit)] ''12'' [] = mt [Loop True (length ''12'') (Cls Digit)] ''12'' [] \<and>
   mt [Loop True (length ''12'') (Cls Digit)] ''12'' [] = Some ([], [])"
proof -
  have h: "length ''12'' \<le> (7::nat)" by simp
  have e: "mt [Loop True (length ''12'') (Cls Digit)] ''12'' [] = Some ([], [])" by code_simp
  have b: "mt [Loop True 7 (Cls Digit)] ''12'' [] = mt [Loop True (length ''12'') (Cls Digit)] ''12'' []"
    using mt_repetition_budget[OF h, of True "Cls Digit" "[]" "[]"] by (simp only: append_Nil)
  from h b e show ?thesis by (intro conjI)
qed

end
