(* ===== verification/Regexp_Lang.thy ===== *)
theory Regexp_Lang
  imports Go_Regexp
begin

text \<open>
  A declarative semantics for the expressions of Go_Regexp, in the style of a regular
  language with context: \<open>lm r w t\<close> holds when \<open>r\<close> matches the string \<open>w\<close>
  followed by the rest \<open>t\<close> of the input (the rest matters only to the end-of-text
  anchor \<open>$\<close>). It is executable: concatenation and repetition try every split
  point, and a repetition's iterations are non-empty, which loses nothing since an empty
  iteration matches nothing new. The backtracking matcher refines it: every result
  of \<open>mt_all\<close> comes from a declarative match, with every capture it records
  matching its group (soundness), and every declarative match is among the results
  (completeness).
\<close>

section \<open>Language semantics\<close>

function lm :: "re \<Rightarrow> string \<Rightarrow> string \<Rightarrow> bool" where
  "lm Empty w t = (w = [])"
| "lm (Cls cl) w t = (case w of [x] \<Rightarrow> cls_match cl x | _ \<Rightarrow> False)"
| "lm (Cat a b) w t =
     list_ex (\<lambda>i. lm a (take i w) (drop i w @ t) \<and> lm b (drop i w) t) [0..<Suc (length w)]"
| "lm (Alt a b) w t = (lm a w t \<or> lm b w t)"
| "lm (Star g r) w t =
     (w = [] \<or>
      list_ex (\<lambda>i. lm r (take i w) (drop i w @ t) \<and> lm (Star g r) (drop i w) t) [1..<Suc (length w)])"
| "lm (Group j r) w t = lm r w t"
| "lm End_text w t = (w = [] \<and> t = [])"
  by pat_completeness auto

termination
  by (relation "measures [\<lambda>(r, w, t). size r, \<lambda>(r, w, t). length w]") auto

declare lm.simps(3,5) [simp del]

fun subs :: "re \<Rightarrow> re list" where
  "subs (Cat a b) = Cat a b # subs a @ subs b"
| "subs (Alt a b) = Alt a b # subs a @ subs b"
| "subs (Star g r) = Star g r # subs r"
| "subs (Group j r) = Group j r # subs r"
| "subs r = [r]"

fun must :: "re \<Rightarrow> nat \<Rightarrow> bool" where
  "must (Cat a b) j = (must a j \<or> must b j)"
| "must (Group i r) j = (i = j \<or> must r j)"
| "must _ j = False"

definition cap_ok :: "re \<Rightarrow> string \<Rightarrow> nat \<times> nat \<times> nat \<Rightarrow> bool" where
  "cap_ok r s e = (case e of (j, a, b) \<Rightarrow>
     b \<le> a \<and> a \<le> length s \<and>
     (\<exists>r'. Group j r' \<in> set (subs r) \<and>
           lm r' (take (a - b) (drop (length s - a) s)) (drop (length s - b) s)))"

lemma lm_Cat_iff:
  "lm (Cat a b) w t \<longleftrightarrow> (\<exists>w1 w2. w = w1 @ w2 \<and> lm a w1 (w2 @ t) \<and> lm b w2 t)"
proof -
  have "lm (Cat a b) w t \<longleftrightarrow>
        (\<exists>i\<in>{0..<Suc (length w)}. lm a (take i w) (drop i w @ t) \<and> lm b (drop i w) t)"
    by (simp only: lm.simps list_ex_iff set_upt)
  also have "\<dots> \<longleftrightarrow> (\<exists>w1 w2. w = w1 @ w2 \<and> lm a w1 (w2 @ t) \<and> lm b w2 t)"
  proof
    assume "\<exists>i\<in>{0..<Suc (length w)}. lm a (take i w) (drop i w @ t) \<and> lm b (drop i w) t"
    then show "\<exists>w1 w2. w = w1 @ w2 \<and> lm a w1 (w2 @ t) \<and> lm b w2 t"
      by (metis append_take_drop_id)
  next
    assume "\<exists>w1 w2. w = w1 @ w2 \<and> lm a w1 (w2 @ t) \<and> lm b w2 t"
    then obtain w1 w2 where "w = w1 @ w2" "lm a w1 (w2 @ t)" "lm b w2 t" by blast
    then show "\<exists>i\<in>{0..<Suc (length w)}. lm a (take i w) (drop i w @ t) \<and> lm b (drop i w) t"
      by (intro bexI[of _ "length w1"]) auto
  qed
  finally show ?thesis .
qed

lemma lm_Star_iff:
  "lm (Star g r) w t \<longleftrightarrow>
     w = [] \<or> (\<exists>w1 w2. w = w1 @ w2 \<and> w1 \<noteq> [] \<and> lm r w1 (w2 @ t) \<and> lm (Star g r) w2 t)"
proof -
  have "lm (Star g r) w t \<longleftrightarrow> w = [] \<or>
        (\<exists>i\<in>{1..<Suc (length w)}. lm r (take i w) (drop i w @ t) \<and> lm (Star g r) (drop i w) t)"
    by (simp only: lm.simps(5)[of g r w t] list_ex_iff set_upt)
  also have "\<dots> \<longleftrightarrow> w = [] \<or>
      (\<exists>w1 w2. w = w1 @ w2 \<and> w1 \<noteq> [] \<and> lm r w1 (w2 @ t) \<and> lm (Star g r) w2 t)"
  proof (intro disj_cong refl iffI)
    assume "\<exists>i\<in>{1..<Suc (length w)}. lm r (take i w) (drop i w @ t) \<and> lm (Star g r) (drop i w) t"
    then obtain i where "1 \<le> i" "i \<le> length w" "lm r (take i w) (drop i w @ t)" "lm (Star g r) (drop i w) t"
      by auto
    then show "\<exists>w1 w2. w = w1 @ w2 \<and> w1 \<noteq> [] \<and> lm r w1 (w2 @ t) \<and> lm (Star g r) w2 t"
      by (intro exI[of _ "take i w"] exI[of _ "drop i w"]) auto
  next
    assume "\<exists>w1 w2. w = w1 @ w2 \<and> w1 \<noteq> [] \<and> lm r w1 (w2 @ t) \<and> lm (Star g r) w2 t"
    then obtain w1 w2 where "w = w1 @ w2" "w1 \<noteq> []" "lm r w1 (w2 @ t)" "lm (Star g r) w2 t" by blast
    then show "\<exists>i\<in>{1..<Suc (length w)}. lm r (take i w) (drop i w @ t) \<and> lm (Star g r) (drop i w) t"
      by (intro bexI[of _ "length w1"]) (auto simp: Suc_le_eq)
  qed
  finally show ?thesis .
qed

lemma lm_Star_Nil [simp]: "lm (Star g r) [] t"
  by (subst lm.simps(5)) simp

lemma lm_Star_step:
  "w1 \<noteq> [] \<Longrightarrow> lm r w1 (w2 @ t) \<Longrightarrow> lm (Star g r) w2 t \<Longrightarrow> lm (Star g r) (w1 @ w2) t"
  using lm_Star_iff[of g r "w1 @ w2" t] by blast

lemma subs_refl [simp]: "r \<in> set (subs r)"
  by (cases r) auto

lemma subs_trans: "r' \<in> set (subs r) \<Longrightarrow> set (subs r') \<subseteq> set (subs r)"
  by (induction r) auto

lemma cap_ok_subs: "r' \<in> set (subs r) \<Longrightarrow> cap_ok r' s e \<Longrightarrow> cap_ok r s e"
  unfolding cap_ok_def using subs_trans by (fastforce split: prod.splits)

lemma cap_ok_suffix: "suffix t s \<Longrightarrow> cap_ok r t e \<Longrightarrow> cap_ok r s e"
proof -
  assume "suffix t s" "cap_ok r t e"
  then obtain u where s: "s = u @ t" by (auto simp: suffix_def)
  obtain j a b where e: "e = (j, a, b)" by (cases e)
  with \<open>cap_ok r t e\<close> have "a \<le> length t" "b \<le> a" by (auto simp: cap_ok_def)
  then have "drop (length s - a) s = drop (length t - a) t" "drop (length s - b) s = drop (length t - b) t"
    by (simp_all add: s)
  with \<open>cap_ok r t e\<close> e s show ?thesis by (auto simp: cap_ok_def)
qed

lemma cap_ok_lift:
  "r' \<in> set (subs r) \<Longrightarrow> suffix t s \<Longrightarrow> \<forall>e\<in>set d. cap_ok r' t e \<Longrightarrow> \<forall>e\<in>set d. cap_ok r s e"
  using cap_ok_subs cap_ok_suffix by blast

section \<open>Soundness of the matcher\<close>

lemma mt_all_loop_sound:
  assumes IH: "\<And>k s c res. res \<in> set (mt_all (R r # k) s c) \<Longrightarrow>
      \<exists>w t d. s = w @ t \<and> lm r w t \<and> (\<forall>e\<in>set d. cap_ok r s e) \<and> res \<in> set (mt_all k t (d @ c))"
  shows "res \<in> set (mt_all (Loop g n r # k) s c) \<Longrightarrow>
      \<exists>w t d. s = w @ t \<and> lm (Star g r) w t \<and> (\<forall>e\<in>set d. cap_ok (Star g r) s e) \<and>
              res \<in> set (mt_all k t (d @ c))"
proof (induction n arbitrary: s c)
  case 0
  then show ?case by (intro exI[of _ "[]"] exI[of _ s] exI[of _ "[]"]) simp
next
  case (Suc n)
  show ?case
  proof (cases "res \<in> set (mt_all k s c)")
    case True
    then show ?thesis by (intro exI[of _ "[]"] exI[of _ s] exI[of _ "[]"]) simp
  next
    case False
    with Suc.prems have "res \<in> set (mt_all (R r # Progress (length s) # Loop g n r # k) s c)"
      by (auto split: if_splits)
    from IH[OF this] obtain w1 t1 d1 where s: "s = w1 @ t1" and r1: "lm r w1 t1"
      and d1: "\<forall>e\<in>set d1. cap_ok r s e"
      and res1: "res \<in> set (mt_all (Progress (length s) # Loop g n r # k) t1 (d1 @ c))" by blast
    from res1 have short: "length t1 < length s" by (simp split: if_splits)
    with s have "w1 \<noteq> []" by auto
    from res1 short have "res \<in> set (mt_all (Loop g n r # k) t1 (d1 @ c))" by simp
    from Suc.IH[OF this] obtain w2 t d2 where t1: "t1 = w2 @ t" and r2: "lm (Star g r) w2 t"
      and d2: "\<forall>e\<in>set d2. cap_ok (Star g r) t1 e" and res2: "res \<in> set (mt_all k t (d2 @ d1 @ c))"
      by blast
    have "lm (Star g r) (w1 @ w2) t"
      using \<open>w1 \<noteq> []\<close> r1 r2 t1 by (intro lm_Star_step) simp_all
    moreover have "\<forall>e\<in>set (d2 @ d1). cap_ok (Star g r) s e"
      using d1 d2 cap_ok_lift[of r "Star g r" s s d1] cap_ok_lift[of "Star g r" "Star g r" t1 s d2] s
      by (auto simp: suffix_def)
    ultimately show ?thesis using s t1 res2 by (intro exI[of _ "w1 @ w2"] exI[of _ t] exI[of _ "d2 @ d1"]) simp
  qed
qed

lemma mt_all_sound:
  "res \<in> set (mt_all (R r # k) s c) \<Longrightarrow>
   \<exists>w t d. s = w @ t \<and> lm r w t \<and> (\<forall>e\<in>set d. cap_ok r s e) \<and> (\<forall>j. must r j \<longrightarrow> j \<in> fst ` set d) \<and>
           res \<in> set (mt_all k t (d @ c))"
proof (induction r arbitrary: k s c res)
  case Empty
  then show ?case by (intro exI[of _ "[]"] exI[of _ s] exI[of _ "[]"]) simp
next
  case (Cls cl)
  then obtain x xs where "s = x # xs" "cls_match cl x" "res \<in> set (mt_all k xs c)"
    by (cases s) (auto split: if_splits)
  then show ?case by (intro exI[of _ "[x]"] exI[of _ xs] exI[of _ "[]"]) simp
next
  case (Cat a b)
  from Cat.prems have "res \<in> set (mt_all (R a # R b # k) s c)" by simp
  from Cat.IH(1)[OF this] obtain w1 t1 d1 where s: "s = w1 @ t1" "lm a w1 t1"
    and d1: "\<forall>e\<in>set d1. cap_ok a s e" "\<forall>j. must a j \<longrightarrow> j \<in> fst ` set d1"
    and r1: "res \<in> set (mt_all (R b # k) t1 (d1 @ c))" by blast
  from Cat.IH(2)[OF r1] obtain w2 t d2 where t1: "t1 = w2 @ t" "lm b w2 t"
    and d2: "\<forall>e\<in>set d2. cap_ok b t1 e" "\<forall>j. must b j \<longrightarrow> j \<in> fst ` set d2"
    and r2: "res \<in> set (mt_all k t (d2 @ d1 @ c))" by blast
  have "lm (Cat a b) (w1 @ w2) t"
    using s t1 by (auto simp: lm_Cat_iff)
  moreover have "\<forall>e\<in>set (d2 @ d1). cap_ok (Cat a b) s e"
    using cap_ok_lift[of a "Cat a b" s s d1] cap_ok_lift[of b "Cat a b" t1 s d2] d1 d2 s
    by (auto simp: suffix_def)
  moreover have "\<forall>j. must (Cat a b) j \<longrightarrow> j \<in> fst ` set (d2 @ d1)"
    using d1(2) d2(2) by auto
  ultimately show ?case using s t1 r2
    by (intro exI[of _ "w1 @ w2"] exI[of _ t] exI[of _ "d2 @ d1"]) simp
next
  case (Alt a b)
  have sub: "a \<in> set (subs (Alt a b))" "b \<in> set (subs (Alt a b))" by simp_all
  from Alt.prems consider (left) "res \<in> set (mt_all (R a # k) s c)" | (right) "res \<in> set (mt_all (R b # k) s c)"
    by auto
  then show ?case
  proof cases
    case left
    from Alt.IH(1)[OF left] obtain w t d where "s = w @ t" "lm a w t" "\<forall>e\<in>set d. cap_ok a s e"
      "res \<in> set (mt_all k t (d @ c))" by blast
    with cap_ok_subs[OF sub(1)] show ?thesis
      by (intro exI[of _ w] exI[of _ t] exI[of _ d]) simp
  next
    case right
    from Alt.IH(2)[OF right] obtain w t d where "s = w @ t" "lm b w t" "\<forall>e\<in>set d. cap_ok b s e"
      "res \<in> set (mt_all k t (d @ c))" by blast
    with cap_ok_subs[OF sub(2)] show ?thesis
      by (intro exI[of _ w] exI[of _ t] exI[of _ d]) simp
  qed
next
  case (Star g r)
  from Star.prems have loop: "res \<in> set (mt_all (Loop g (length s) r # k) s c)" by simp
  have IH: "\<exists>w t d. s' = w @ t \<and> lm r w t \<and> (\<forall>e\<in>set d. cap_ok r s' e) \<and> res' \<in> set (mt_all k' t (d @ c'))"
    if "res' \<in> set (mt_all (R r # k') s' c')" for k' s' c' res'
    using Star.IH[OF that] by blast
  from loop have "\<exists>w t d. s = w @ t \<and> lm (Star g r) w t \<and> (\<forall>e\<in>set d. cap_ok (Star g r) s e) \<and>
                      res \<in> set (mt_all k t (d @ c))"
    by (rule mt_all_loop_sound[where r = r, rotated]) (erule IH)
  then obtain w t d where "s = w @ t" "lm (Star g r) w t"
    "\<forall>e\<in>set d. cap_ok (Star g r) s e" "res \<in> set (mt_all k t (d @ c))" by blast
  then show ?case by (intro exI[of _ w] exI[of _ t] exI[of _ d]) simp
next
  case (Group i r)
  from Group.prems have "res \<in> set (mt_all (R r # Close i (length s) # k) s c)" by simp
  from Group.IH[OF this] obtain w t d where s: "s = w @ t" "lm r w t"
    and d: "\<forall>e\<in>set d. cap_ok r s e" "\<forall>j. must r j \<longrightarrow> j \<in> fst ` set d"
    and r1: "res \<in> set (mt_all (Close i (length s) # k) t (d @ c))" by blast
  have "cap_ok (Group i r) s (i, length s, length t)"
    using s by (auto simp: cap_ok_def intro!: exI[of _ r])
  moreover have "\<forall>e\<in>set d. cap_ok (Group i r) s e"
    using d(1) cap_ok_subs[of r "Group i r"] by simp
  ultimately show ?case using s d(2) r1
    by (intro exI[of _ w] exI[of _ t] exI[of _ "(i, length s, length t) # d"]) auto
next
  case End_text
  then show ?case by (intro exI[of _ "[]"] exI[of _ s] exI[of _ "[]"]) (auto split: if_splits)
qed

section \<open>Completeness of the matcher\<close>

lemma mt_all_loop_complete:
  assumes IH: "\<And>w t k c. lm r w t \<Longrightarrow> \<exists>c'. set (mt_all k t c') \<subseteq> set (mt_all (R r # k) (w @ t) c)"
  shows "lm (Star g r) w t \<Longrightarrow> length w \<le> n \<Longrightarrow>
         \<exists>c'. set (mt_all k t c') \<subseteq> set (mt_all (Loop g n r # k) (w @ t) c)"
proof (induction "length w" arbitrary: w n c rule: less_induct)
  case less
  show ?case
  proof (cases "w = []")
    case True
    then show ?thesis by (cases n; cases g) (auto intro!: exI[of _ c])
  next
    case False
    with less.prems(1) obtain w1 w2 where w: "w = w1 @ w2" "w1 \<noteq> []" "lm r w1 (w2 @ t)"
      "lm (Star g r) w2 t"
      using lm_Star_iff[of g r w t] by blast
    have "0 < n" using less.prems(2) w(1,2) by (cases w1) auto
    then obtain n' where n1: "n = Suc n'" using not0_implies_Suc by blast
    have "length w2 \<le> n'" using less.prems(2) w(1,2) n1 by (cases w1) auto
    note n = n1 this
    let ?K = "Progress (length (w @ t)) # Loop g n' r # k"
    from IH[OF w(3), of ?K c] obtain c1
      where A: "set (mt_all ?K (w2 @ t) c1) \<subseteq> set (mt_all (R r # ?K) (w1 @ w2 @ t) c)" by blast
    have "length (w2 @ t) < length (w @ t)" using w by simp
    then have B: "mt_all ?K (w2 @ t) c1 = mt_all (Loop g n' r # k) (w2 @ t) c1" by simp
    have "length w2 < length w" using w by simp
    from less.hyps[OF this w(4) n(2)] obtain c'
      where C: "set (mt_all k t c') \<subseteq> set (mt_all (Loop g n' r # k) (w2 @ t) c1)" by blast
    have D: "set (mt_all (R r # ?K) (w @ t) c) \<subseteq> set (mt_all (Loop g n r # k) (w @ t) c)"
      using n by (cases g) auto
    from A B C D w(1) show ?thesis by (intro exI[of _ c']) auto
  qed
qed

lemma mt_all_complete:
  "lm r w t \<Longrightarrow> \<exists>c'. set (mt_all k t c') \<subseteq> set (mt_all (R r # k) (w @ t) c)"
proof (induction r arbitrary: w t k c)
  case Empty
  then show ?case by (intro exI[of _ c]) simp
next
  case (Cls cl)
  then show ?case by (intro exI[of _ c]) (auto split: list.splits)
next
  case (Cat a b)
  from Cat.prems obtain w1 w2 where w: "w = w1 @ w2" "lm a w1 (w2 @ t)" "lm b w2 t"
    by (auto simp: lm_Cat_iff)
  from Cat.IH(1)[OF w(2), of "R b # k" c] obtain c1
    where A: "set (mt_all (R b # k) (w2 @ t) c1) \<subseteq> set (mt_all (R a # R b # k) (w1 @ w2 @ t) c)" by blast
  from Cat.IH(2)[OF w(3), of k c1] obtain c'
    where B: "set (mt_all k t c') \<subseteq> set (mt_all (R b # k) (w2 @ t) c1)" by blast
  from A B w(1) show ?case by (intro exI[of _ c']) auto
next
  case (Alt a b)
  then show ?case by (auto dest!: Alt.IH(1)[of _ _ k c] Alt.IH(2)[of _ _ k c])
next
  case (Star g r)
  have "length w \<le> length (w @ t)" by simp
  from mt_all_loop_complete[where r = r, OF Star.IH Star.prems this, of k c] show ?case by simp
next
  case (Group i r)
  from Group.IH[of w t "Close i (length (w @ t)) # k" c] Group.prems obtain c1
    where "set (mt_all (Close i (length (w @ t)) # k) t c1) \<subseteq>
           set (mt_all (R r # Close i (length (w @ t)) # k) (w @ t) c)" by auto
  then show ?case by (intro exI[of _ "(i, length (w @ t), length t) # c1"]) simp
next
  case End_text
  then show ?case by (intro exI[of _ c]) simp
qed

end
