(* ===== verification/Go_Find.thy ===== *)
theory Go_Find
  imports Regexp_Lang
begin

text \<open>
  \<open>FindStringSubmatch\<close> of Go's \<open>regexp\<close> package, as the SourceForge adapter
  calls it: the leftmost start position where the backtracking matcher of
  Go_Regexp succeeds, and the submatch strings read off the capture positions. The
  language semantics of Regexp_Lang specifies it: the match is the leftmost one, and every
  capture is a substring of the input matched by its group's sub-expression.
\<close>

section \<open>Search and submatches\<close>
text \<open>
  \<open>FindStringSubmatch\<close>: try the whole expression, as capturing group 0, at every
  start position from the left; the first start where it matches wins.
\<close>

fun search :: "re \<Rightarrow> string \<Rightarrow> caps option" where
  "search r [] = map_option snd (mt [R (Group 0 r)] [] [])"
| "search r (x # xs) =
     (case mt [R (Group 0 r)] (x # xs) [] of
        Some (_, c) \<Rightarrow> Some c
      | None \<Rightarrow> search r xs)"

fun lookup_cap :: "caps \<Rightarrow> nat \<Rightarrow> (nat \<times> nat) option" where
  "lookup_cap [] i = None"
| "lookup_cap ((j, a, b) # c) i = (if i = j then Some (a, b) else lookup_cap c i)"

definition substr :: "string \<Rightarrow> nat \<Rightarrow> nat \<Rightarrow> string" where
  "substr inp a b = take (a - b) (drop (length inp - a) inp)"

text \<open>
  The result is Go's \<open>[]string\<close>: \<open>nil\<close> (here \<open>[]\<close>) when there is no match,
  otherwise the whole match followed by one string per group, \<open>""\<close> for a group that
  took no part in the match.
\<close>

definition find_submatch :: "re \<Rightarrow> string \<Rightarrow> string list" where
  "find_submatch r inp =
     (case search r inp of
        None \<Rightarrow> []
      | Some c \<Rightarrow> map (\<lambda>i. case lookup_cap c i of None \<Rightarrow> [] | Some (a, b) \<Rightarrow> substr inp a b)
                   [0..<Suc (num_groups r)])"

text \<open>
  A declarative reading of a match of an end-anchored expression: the longest suffix
  of the input in the expression's language, found by trying the suffixes from the
  longest. It does not use the matcher.
\<close>

definition longest_match :: "re \<Rightarrow> string \<Rightarrow> string option" where
  "longest_match r q = find (\<lambda>w. lm r w []) (map (\<lambda>i. drop i q) [0..<Suc (length q)])"

lemma search_Some:
  "search r q = Some c \<Longrightarrow> \<exists>t s'. suffix t q \<and> mt [R (Group 0 r)] t [] = Some (s', c)"
proof (induction q)
  case Nil
  then show ?case by auto
next
  case (Cons x xs)
  then show ?case
    by (auto split: option.splits intro: suffix_Cons_right simp del: mt.simps)
qed

lemma search_start:
  "mt [R (Group 0 r)] t [] = Some (s', c) \<Longrightarrow> search r t = Some c"
  by (cases t) (simp_all del: mt.simps)

lemma search_None:
  "search r q = None \<longleftrightarrow> (\<forall>t. suffix t q \<longrightarrow> mt [R (Group 0 r)] t [] = None)"
proof (induction q)
  case Nil
  then show ?case by (auto simp del: mt.simps)
next
  case (Cons x xs)
  then show ?case
    by (auto simp: suffix_Cons_cases split: option.splits simp del: mt.simps)
qed

lemma lookup_cap_mem: "lookup_cap c i = Some (a, b) \<Longrightarrow> (i, a, b) \<in> set c"
  by (induction c i rule: lookup_cap.induct) (auto split: if_splits)

lemma find_submatch_Nil_iff: "find_submatch r q = [] \<longleftrightarrow> search r q = None"
  by (simp add: find_submatch_def split: option.splits)

lemma find_submatch_length:
  "find_submatch r q \<noteq> [] \<Longrightarrow> length (find_submatch r q) = Suc (num_groups r)"
  by (simp add: find_submatch_def split: option.splits)

lemma find_submatch_at_match:
  assumes "anchored r" and "find_submatch r q \<noteq> []"
  shows "suffix (find_submatch r q ! 0) q \<and>
         find_submatch r (find_submatch r q ! 0) = find_submatch r q"
proof -
  from assms(2) obtain c where sc: "search r q = Some c"
    by (auto simp: find_submatch_Nil_iff)
  then obtain t s' where tq: "suffix t q" and m: "mt [R (Group 0 r)] t [] = Some (s', c)"
    by (blast dest: search_Some)
  from assms(1) m have "s' = []" by (rule group0_anchored)
  with group0_cap[OF m] have c0: "lookup_cap c 0 = Some (length t, 0)" by auto
  have "find_submatch r q ! 0 = substr q (length t) 0"
    using sc c0 by (simp add: find_submatch_def del: upt_Suc)
  also have "\<dots> = t"
    using tq by (simp add: substr_def suffix_drop_length)
  finally have m0: "find_submatch r q ! 0 = t" .
  have st: "search r t = Some c" using m by (rule search_start)
  have "substr t a b = substr q a b" if "lookup_cap c i = Some (a, b)" for i a b
  proof -
    from that have "a \<le> length t"
      using group0_caps_ok[OF m] by (auto simp: caps_ok_def dest!: lookup_cap_mem)
    with tq show ?thesis by (simp add: substr_def take_drop_suffix_eq)
  qed
  then have "find_submatch r t = find_submatch r q"
    using sc st by (auto simp: find_submatch_def split: option.splits)
  with tq m0 show ?thesis by simp
qed

lemma find_submatch_suffix_Nil:
  "find_submatch r q = [] \<Longrightarrow> suffix t q \<Longrightarrow> find_submatch r t = []"
  by (auto simp: find_submatch_Nil_iff search_None intro: suffix_order.trans)

subsection \<open>Refinement of the language semantics\<close>

lemma mt_group0_sound:
  assumes "mt [R (Group 0 r)] u [] = Some (s', c)"
  shows "\<exists>w. u = w @ s' \<and> lm r w s' \<and> (\<forall>e\<in>set c. cap_ok (Group 0 r) u e) \<and>
             (\<forall>j. must r j \<longrightarrow> j \<in> fst ` set c)"
proof -
  from mt_all_sound[OF mt_Some_mem[OF assms]] obtain w t d where
    "u = w @ t" "lm (Group 0 r) w t" "\<forall>e\<in>set d. cap_ok (Group 0 r) u e"
    "\<forall>j. must (Group 0 r) j \<longrightarrow> j \<in> fst ` set d" "(s', c) \<in> set (mt_all [] t (d @ []))"
    by blast
  then show ?thesis by auto
qed

lemma mt_group0_complete: "lm r w t \<Longrightarrow> mt [R (Group 0 r)] (w @ t) [] \<noteq> None"
proof
  assume "lm r w t" "mt [R (Group 0 r)] (w @ t) [] = None"
  from \<open>lm r w t\<close> obtain c' where "set (mt_all [] t c') \<subseteq> set (mt_all [R (Group 0 r)] (w @ t) [])"
    using mt_all_complete[of "Group 0 r" w t "[]" "[]"] by auto
  then have "mt_all [R (Group 0 r)] (w @ t) [] \<noteq> []" by auto
  with \<open>mt [R (Group 0 r)] (w @ t) [] = None\<close> show False
    by (simp add: mt_eq_first split: list.splits)
qed

lemma search_first:
  "search r q = Some c \<Longrightarrow>
   \<exists>pre u s'. q = pre @ u \<and> mt [R (Group 0 r)] u [] = Some (s', c) \<and>
     (\<forall>pre' u'. q = pre' @ u' \<longrightarrow> length pre' < length pre \<longrightarrow> mt [R (Group 0 r)] u' [] = None)"
proof (induction q)
  case Nil
  then show ?case by (auto simp del: mt.simps)
next
  case (Cons x xs)
  show ?case
  proof (cases "mt [R (Group 0 r)] (x # xs) []")
    case (Some res)
    with Cons.prems obtain s0 where "mt [R (Group 0 r)] (x # xs) [] = Some (s0, c)"
      by (cases res) (auto simp del: mt.simps)
    then show ?thesis
      by (intro exI[of _ "[]"] exI[of _ "x # xs"] exI[of _ s0]) (auto simp del: mt.simps)
  next
    case None
    with Cons.prems have "search r xs = Some c" by (simp del: mt.simps)
    from Cons.IH[OF this] obtain pre u s' where u: "xs = pre @ u" "mt [R (Group 0 r)] u [] = Some (s', c)"
      and first: "\<forall>pre' u'. xs = pre' @ u' \<longrightarrow> length pre' < length pre \<longrightarrow> mt [R (Group 0 r)] u' [] = None"
      by blast
    have "mt [R (Group 0 r)] u' [] = None"
      if "x # xs = pre' @ u'" "length pre' < length (x # pre)" for pre' u'
    proof (cases pre')
      case Nil
      with that None show ?thesis by simp
    next
      case (Cons y p)
      with that first show ?thesis by auto
    qed
    with u show ?thesis by (intro exI[of _ "x # pre"] exI[of _ u] exI[of _ s']) simp
  qed
qed

lemma substr_split:
  "b \<le> a \<Longrightarrow> a \<le> length q \<Longrightarrow> q = take (length q - a) q @ substr q a b @ drop (length q - b) q"
proof -
  assume "b \<le> a" "a \<le> length q"
  then have "drop (a - b) (drop (length q - a) q) = drop (length q - b) q" by simp
  then show ?thesis
    unfolding substr_def by (metis append_take_drop_id)
qed

lemma substr_match: "q = pre @ w @ t \<Longrightarrow> substr q (length (w @ t)) (length t) = w"
  by (simp add: substr_def)

lemma lookup_cap_fst: "j \<in> fst ` set c \<Longrightarrow> \<exists>a b. lookup_cap c j = Some (a, b)"
  by (induction c j rule: lookup_cap.induct) auto

lemma find_submatch_nth:
  "search r q = Some c \<Longrightarrow> j < Suc (num_groups r) \<Longrightarrow> lookup_cap c j = Some (a, b) \<Longrightarrow>
   find_submatch r q ! j = substr q a b"
  by (simp add: find_submatch_def del: upt_Suc)

lemma find_submatch_group_match:
  assumes "find_submatch r q = sm" and "0 < j" and "j < length sm" and "must r j"
  shows "\<exists>r' pre t. Group j r' \<in> set (subs r) \<and> q = pre @ sm ! j @ t \<and> lm r' (sm ! j) t"
proof -
  from assms(1,3) obtain c where sc: "search r q = Some c"
    by (cases "search r q") (auto simp: find_submatch_Nil_iff[symmetric])
  have jn: "j < Suc (num_groups r)"
    using find_submatch_length[of r q] assms(1,3) by (cases sm) auto
  from search_first[OF sc] obtain pre u s' where q: "q = pre @ u"
    and m0: "mt [R (Group 0 r)] u [] = Some (s', c)" by blast
  from mt_group0_sound[OF m0] assms(4) have ok: "\<forall>e\<in>set c. cap_ok (Group 0 r) u e"
    and jc: "j \<in> fst ` set c" by blast+
  from lookup_cap_fst[OF jc] obtain a b where ab: "lookup_cap c j = Some (a, b)" by blast
  have "suffix u q" using q by (simp add: suffix_def)
  with ok lookup_cap_mem[OF ab] have "cap_ok (Group 0 r) q (j, a, b)"
    by (blast intro: cap_ok_suffix)
  with assms(2) obtain r' where r': "Group j r' \<in> set (subs r)" and ba: "b \<le> a" "a \<le> length q"
    and l: "lm r' (take (a - b) (drop (length q - a) q)) (drop (length q - b) q)"
    by (auto simp: cap_ok_def)
  have smj: "sm ! j = substr q a b" using find_submatch_nth[OF sc jn ab] assms(1) by simp
  from substr_split[OF ba] l r' smj show ?thesis
    by (intro exI[of _ r'] exI[of _ "take (length q - a) q"] exI[of _ "drop (length q - b) q"])
       (simp add: substr_def)
qed

subsection \<open>The leftmost match as the longest suffix\<close>

lemma lm_anchored: "anchored r \<Longrightarrow> lm r w t \<Longrightarrow> t = []"
proof (induction r w t rule: lm.induct)
  case (3 a b w t)
  from "3.prems"(2) obtain i where i: "i \<in> set [0..<Suc (length w)]"
    and la: "lm a (take i w) (drop i w @ t)" and lb: "lm b (drop i w) t"
    unfolding lm.simps(3) list_ex_iff by blast
  show ?case
  proof (cases "anchored a")
    case True
    from "3.IH"(1)[OF i True la] show ?thesis by simp
  next
    case False
    with "3.prems"(1) have "anchored b" by simp
    from "3.IH"(2)[OF i this lb] show ?thesis .
  qed
qed auto

lemma search_first_lang:
  assumes "search r q = Some c"
  shows "\<exists>pre t. q = pre @ find_submatch r q ! 0 @ t \<and> lm r (find_submatch r q ! 0) t \<and>
           (\<forall>pre' w' t'. q = pre' @ w' @ t' \<and> lm r w' t' \<longrightarrow> length pre \<le> length pre')"
proof -
  from search_first[OF assms] obtain pre u s' where q: "q = pre @ u"
    and m0: "mt [R (Group 0 r)] u [] = Some (s', c)"
    and first: "\<forall>pre' u'. q = pre' @ u' \<longrightarrow> length pre' < length pre \<longrightarrow> mt [R (Group 0 r)] u' [] = None"
    by blast
  from mt_group0_sound[OF m0] obtain w where u: "u = w @ s'" and w: "lm r w s'" by blast
  from group0_cap[OF m0] have "lookup_cap c 0 = Some (length u, length s')" by auto
  with assms have "find_submatch r q ! 0 = substr q (length (w @ s')) (length s')"
    using find_submatch_nth[of r q c 0] u by simp
  moreover have "substr q (length (w @ s')) (length s') = w"
    using substr_match[of q pre w s'] q u by simp
  ultimately have mw: "find_submatch r q ! 0 = w" by simp
  have "length pre \<le> length pre'" if "q = pre' @ w' @ t'" "lm r w' t'" for pre' w' t'
  proof (rule ccontr)
    assume "\<not> length pre \<le> length pre'"
    then have "length pre' < length pre" by simp
    with first[rule_format, OF that(1)] have "mt [R (Group 0 r)] (w' @ t') [] = None" .
    with mt_group0_complete[OF that(2)] show False by simp
  qed
  then have "\<forall>pre' w' t'. q = pre' @ w' @ t' \<and> lm r w' t' \<longrightarrow> length pre \<le> length pre'"
    by blast
  with q u w show ?thesis unfolding mw by blast
qed

lemma longest_match_None:
  assumes "anchored r"
  shows "longest_match r q = None \<longleftrightarrow> find_submatch r q = []"
proof
  assume n: "longest_match r q = None"
  show "find_submatch r q = []"
  proof (rule ccontr)
    assume "find_submatch r q \<noteq> []"
    then obtain c where "search r q = Some c" by (auto simp: find_submatch_Nil_iff)
    from search_first_lang[OF this] obtain pre t where
      q: "q = pre @ find_submatch r q ! 0 @ t" and l: "lm r (find_submatch r q ! 0) t" by blast
    define m where "m = find_submatch r q ! 0"
    from lm_anchored[OF assms l] q[folded m_def] l[folded m_def]
    have q': "q = pre @ m" and l': "lm r m []" by simp_all
    then have "lm r (drop (length pre) q) []" by simp
    moreover have "drop (length pre) q \<in> set (map (\<lambda>i. drop i q) [0..<Suc (length q)])"
      unfolding set_map using q' by (intro imageI) simp
    ultimately show False using n unfolding longest_match_def find_None_iff by blast
  qed
next
  assume "find_submatch r q = []"
  then have s: "search r q = None" by (simp add: find_submatch_Nil_iff)
  show "longest_match r q = None"
  proof (rule ccontr)
    assume "longest_match r q \<noteq> None"
    then obtain i where "lm r (drop i q) []"
      unfolding longest_match_def find_None_iff by (auto simp del: upt_Suc)
    from mt_group0_complete[OF this] s show False
      by (metis append_Nil2 search_None suffix_drop)
  qed
qed

lemma longest_match_Some:
  assumes "anchored r" and "find_submatch r q \<noteq> []"
  shows "longest_match r q = Some (find_submatch r q ! 0)"
proof -
  from assms(2) obtain c where "search r q = Some c" by (auto simp: find_submatch_Nil_iff)
  from search_first_lang[OF this] obtain pre t where
    q: "q = pre @ find_submatch r q ! 0 @ t" and l: "lm r (find_submatch r q ! 0) t"
    and first: "\<forall>pre' w' t'. q = pre' @ w' @ t' \<and> lm r w' t' \<longrightarrow> length pre \<le> length pre'" by blast
  define m where "m = find_submatch r q ! 0"
  from lm_anchored[OF assms(1) l] q[folded m_def] l[folded m_def]
  have q': "q = pre @ m" and l': "lm r m []" by simp_all
  have "\<not> lm r (drop j q) []" if "j < length pre" for j
  proof
    assume "lm r (drop j q) []"
    with first have "length pre \<le> length (take j q)"
      by (metis append_Nil2 append_take_drop_id)
    with that q' show False by simp
  qed
  moreover have "length pre < Suc (length q)" and "drop (length pre) q = m" using q' by simp_all
  ultimately have "longest_match r q = Some m"
    unfolding longest_match_def using l'
    find_map_upt_first[of "length pre" "Suc (length q)" "\<lambda>w. lm r w []" "\<lambda>i. drop i q"]
    by simp
  then show ?thesis unfolding m_def .
qed

subsection \<open>Properties\<close>

text \<open>
  C21. \<open>FindStringSubmatch\<close> finds a match exactly when the expression matches some
  substring of the input in the declarative semantics: the search neither misses a
  match nor reports one that the language does not contain.
\<close>

theorem search_refines_lang:
  "search r q \<noteq> None \<longleftrightarrow> (\<exists>pre w t. q = pre @ w @ t \<and> lm r w t)"
proof
  assume "search r q \<noteq> None"
  then obtain c where "search r q = Some c" by blast
  from search_first[OF this] obtain pre u s' where q: "q = pre @ u"
    and m: "mt [R (Group 0 r)] u [] = Some (s', c)" by blast
  from mt_group0_sound[OF m] obtain w where "u = w @ s'" "lm r w s'" by blast
  with q show "\<exists>pre w t. q = pre @ w @ t \<and> lm r w t"
    by (intro exI[of _ pre] exI[of _ w] exI[of _ s']) simp
next
  assume "\<exists>pre w t. q = pre @ w @ t \<and> lm r w t"
  then obtain pre w t where "q = pre @ w @ t" "lm r w t" by blast
  then have s: "suffix (w @ t) q" by (simp add: suffix_def)
  show "search r q \<noteq> None"
  proof
    assume "search r q = None"
    with s have "mt [R (Group 0 r)] (w @ t) [] = None" by (simp only: search_None)
    with mt_group0_complete[OF \<open>lm r w t\<close>] show False by simp
  qed
qed

text \<open>
  C22. The whole match \<open>sm[0]\<close> that \<open>FindStringSubmatch\<close> returns is a substring of the
  input matched by the expression, and no match starts further left.
\<close>

theorem find_submatch_leftmost:
  assumes "find_submatch r q = m # ms"
  shows "\<exists>pre t. q = pre @ m @ t \<and> lm r m t \<and>
           (\<forall>pre' w' t'. q = pre' @ w' @ t' \<and> lm r w' t' \<longrightarrow> length pre \<le> length pre')"
proof -
  from assms obtain c where "search r q = Some c"
    by (cases "search r q") (auto simp: find_submatch_Nil_iff[symmetric])
  from search_first_lang[OF this] assms show ?thesis by simp
qed

theorem find_submatch_leftmost_witness:
  "find_submatch (plus True (Cls Digit)) ''a12b34'' = ''12'' # [] \<and>
   (\<exists>pre t. ''a12b34'' = pre @ ''12'' @ t \<and> lm (plus True (Cls Digit)) ''12'' t)"
proof -
  have h: "find_submatch (plus True (Cls Digit)) ''a12b34'' = ''12'' # []" by code_simp
  from find_submatch_leftmost[OF h] h show ?thesis by blast
qed

text \<open>
  C23. Every group that takes part in every match of the expression (one not under an
  alternative or a repetition) is reported by \<open>FindStringSubmatch\<close> as a substring of
  the input that the group's own sub-expression matches, in context.
\<close>

theorem find_submatch_groups_sound:
  assumes "find_submatch r q = sm" and "0 < j" and "j < length sm" and "must r j"
  shows "\<exists>r' pre t. Group j r' \<in> set (subs r) \<and> q = pre @ sm ! j @ t \<and> lm r' (sm ! j) t"
  using find_submatch_group_match[OF assms] .

theorem find_submatch_groups_sound_witness:
  "find_submatch (Cat (Group 1 (plus True (Cls Digit))) End_text) ''v12'' = [''12'', ''12''] \<and>
   (\<exists>r' pre t. Group 1 r' \<in> set (subs (Cat (Group 1 (plus True (Cls Digit))) End_text)) \<and>
      ''v12'' = pre @ ''12'' @ t \<and> lm r' ''12'' t)"
proof -
  have h: "find_submatch (Cat (Group 1 (plus True (Cls Digit))) End_text) ''v12'' = [''12'', ''12'']"
    by code_simp
  have j: "0 < (1::nat)" "1 < length [''12'', ''12'']"
    "must (Cat (Group 1 (plus True (Cls Digit))) End_text) 1" by simp_all
  from find_submatch_groups_sound[OF h j]
  have "\<exists>r' pre t. Group 1 r' \<in> set (subs (Cat (Group 1 (plus True (Cls Digit))) End_text)) \<and>
          ''v12'' = pre @ [''12'', ''12''] ! 1 @ t \<and> lm r' ([''12'', ''12''] ! 1) t" .
  then have "\<exists>r' pre t. Group 1 r' \<in> set (subs (Cat (Group 1 (plus True (Cls Digit))) End_text)) \<and>
          ''v12'' = pre @ ''12'' @ t \<and> lm r' ''12'' t"
    by (simp only: One_nat_def nth_Cons_Suc nth_Cons_0)
  with h show ?thesis by blast
qed

end
