(* ===== verification/Results.thy ===== *)
theory Results
  imports Prelude
begin

text \<open>
  The result model of the \<open>results\<close> package, which the adapters and the command
  use but which is not among the sources: a release (\<open>Result\<close>), the ordered,
  de-duplicated collection of releases found for one query (\<open>ResultSet\<close>, at most
  one release per name and version, the last one added winning) and the three-valued
  outcome of a provider call (\<open>Status\<close>). It follows the specification's data model.
  A timestamp is an integer count from Go's zero \<open>time.Time\<close>, which is therefore 0.
\<close>

section \<open>Releases and statuses\<close>

type_synonym time = int

definition zero_time :: time where
  "zero_time = 0"

record result =
  name :: string
  version :: string
  location :: string
  published :: time

datatype status = OK | Not_found | Unavailable

definition new_result :: "string \<Rightarrow> string \<Rightarrow> string \<Rightarrow> time \<Rightarrow> result" where
  "new_result n v l p = \<lparr>name = n, version = v, location = l, published = p\<rparr>"

definition result_key :: "result \<Rightarrow> string \<times> string" where
  "result_key r = (name r, version r)"

section \<open>Result sets\<close>

record result_set =
  query :: string
  results :: "result list"

definition new_result_set :: "string \<Rightarrow> result_set" where
  "new_result_set q = \<lparr>query = q, results = []\<rparr>"

text \<open>\<open>AddResult\<close>: a release whose name and version are already present replaces
  the old one in its place; any other release is appended.\<close>

fun add_to :: "result \<Rightarrow> result list \<Rightarrow> result list" where
  "add_to r [] = [r]"
| "add_to r (x # xs) = (if result_key x = result_key r then r # xs else x # add_to r xs)"

definition add_result :: "result \<Rightarrow> result_set \<Rightarrow> result_set" where
  "add_result r rs = rs\<lparr>results := add_to r (results rs)\<rparr>"

definition rs_len :: "result_set \<Rightarrow> nat" where
  "rs_len rs = length (results rs)"

text \<open>\<open>First\<close>: the most recent release, or the empty sentinel \<open>None\<close>.\<close>

definition rs_first :: "result_set \<Rightarrow> result option" where
  "rs_first rs = (case results rs of [] \<Rightarrow> None | r # _ \<Rightarrow> Some r)"

definition rs_lookup :: "result_set \<Rightarrow> string \<times> string \<Rightarrow> result option" where
  "rs_lookup rs k = find (\<lambda>r. result_key r = k) (results rs)"

text \<open>The invariant of a result set: no two releases share a name and a version.\<close>

definition rs_inv :: "result_set \<Rightarrow> bool" where
  "rs_inv rs = distinct (map result_key (results rs))"

section \<open>Lemmas\<close>

lemma result_key_new_result [simp]: "result_key (new_result n v l p) = (n, v)"
  by (simp add: result_key_def new_result_def)

lemma set_add_to: "result_key ` set (add_to r xs) = insert (result_key r) (result_key ` set xs)"
  by (induction xs) auto

lemma distinct_add_to: "distinct (map result_key xs) \<Longrightarrow> distinct (map result_key (add_to r xs))"
proof (induction xs)
  case (Cons x xs)
  then show ?case by (auto simp: set_add_to)
qed simp

lemma length_add_to:
  "length (add_to r xs) = (if result_key r \<in> set (map result_key xs) then length xs else Suc (length xs))"
  by (induction xs) auto

lemma find_add_to:
  "distinct (map result_key xs) \<Longrightarrow>
   find (\<lambda>x. result_key x = k) (add_to r xs) =
     (if k = result_key r then Some r else find (\<lambda>x. result_key x = k) xs)"
  by (induction xs) auto

lemma map_key_add_to:
  "map result_key (add_to r xs) =
     (if result_key r \<in> set (map result_key xs) then map result_key xs else map result_key xs @ [result_key r])"
  by (induction xs) auto

lemma add_to_notin: "result_key r \<notin> set (map result_key xs) \<Longrightarrow> add_to r xs = xs @ [r]"
  by (induction xs) auto

lemma rs_inv_add_result: "rs_inv rs \<Longrightarrow> rs_inv (add_result r rs)"
  by (simp add: rs_inv_def add_result_def distinct_add_to)

lemma rs_lookup_add_result:
  "rs_inv rs \<Longrightarrow> rs_lookup (add_result r rs) = (rs_lookup rs)(result_key r \<mapsto> r)"
  by (simp add: fun_eq_iff rs_lookup_def add_result_def rs_inv_def find_add_to)

lemma rs_new_result_set [simp]:
  "rs_lookup (new_result_set n) = Map.empty" "rs_inv (new_result_set n)"
  by (simp_all add: fun_eq_iff rs_lookup_def rs_inv_def new_result_set_def)

lemma rs_first_lookup: "rs_first rs = Some r \<Longrightarrow> rs_lookup rs (result_key r) = Some r"
  by (auto simp: rs_first_def rs_lookup_def split: list.splits)

lemmas result_set_simps [model_simps] =
  new_result_set_def add_result_def rs_len_def rs_first_def rs_lookup_def rs_inv_def

end
