(* ===== verification/Provider.thy ===== *)
theory Provider
  imports Results
begin

text \<open>
  The interface every adapter implements (\<open>Name\<close>, \<open>Match\<close>, \<open>Releases\<close>) and
  what the adapters share: the outcome of an HTTP request as the adapter sees it, and
  the translation of an HTTP status code into a \<open>Status\<close>. The command works on a
  list of values of the interface type; each adapter theory builds its value from its
  own definitions.
\<close>

section \<open>The transport\<close>

text \<open>
  \<open>http.Get\<close> either fails (no response: DNS, connection or TLS errors) or returns a
  status code and a body. The body is given as what the adapter's decoder makes of it:
  \<open>Some\<close> of the decoded document, or \<open>None\<close> when decoding fails. HTTP, XML and
  JSON parsing are library code and are not modelled beyond this.
\<close>

datatype 'b http_result = Transport_error | Http_response nat "'b option"

text \<open>The \<open>switch resp.StatusCode\<close> of an adapter's \<open>Releases\<close>.\<close>

definition translate_status :: "nat \<Rightarrow> status" where
  "translate_status code = (if code = 200 then OK else if code = 404 then Not_found else Unavailable)"

section \<open>The adapter interface\<close>

record provider =
  p_name :: string
  p_match :: "string \<Rightarrow> string"
  p_releases :: "string \<Rightarrow> (result_set option \<times> status) go"

text \<open>
  What the command relies on when it prints a successful answer: a call that reports
  \<open>OK\<close> returns a result set, not \<open>nil\<close>.
\<close>

definition releases_contract :: "provider \<Rightarrow> bool" where
  "releases_contract p =
     (\<forall>n rs s. p_releases p n = Inr (rs, s) \<longrightarrow> s = OK \<longrightarrow> rs \<noteq> None)"

lemma translate_status_cases [simp]:
  "translate_status 200 = OK"
  "translate_status 404 = Not_found"
  "code \<noteq> 200 \<Longrightarrow> code \<noteq> 404 \<Longrightarrow> translate_status code = Unavailable"
  by (simp_all add: translate_status_def)

lemma translate_status_OK_iff: "translate_status code = OK \<longleftrightarrow> code = 200"
  by (simp add: translate_status_def)

end
