(* ===== verification/SourceForge.thy ===== *)
theory SourceForge
  imports Go_Find Provider
begin

text \<open>
  The feed-style adapter, src/providers/sourceforge/provider.go. \<open>Match\<close> recognises
  a SourceForge URL with the strict \<open>TarballRegex\<close> or, failing that, the looser
  \<open>ProjectRegex\<close>, and returns the matched text; \<open>Releases\<close> matches its argument
  again, builds the RSS feed URL from the captured project and sub-path, fetches and
  decodes the feed, and keeps the items whose link matches \<open>TarballRegex\<close>.
  Fetching and decoding are the parameter \<open>get\<close> (URL to \<open>http_result\<close>); the
  date parser \<open>time.Parse(time.RFC1123, _)\<close> is the parameter \<open>rfc1123\<close>.
\<close>

section \<open>The two grammars\<close>

text \<open>
  \<open>TarballRegex\<close>, line 35:
  \<^verbatim>\<open>https?://.*sourceforge.net/projects?/(.+)/files/(.+/)?(.+?)-([\d]+(?:.\d+)*\w*?)\.(?:zip|tar\..+z.*)(?:\/download)?$\<close>
  Each unescaped \<open>.\<close> is any character but a newline, the one in
  \<open>sourceforge.net\<close> included.
\<close>

definition version_re :: re where
  "version_re = seq [plus True (Cls Digit), Star True (Cat any_re (plus True (Cls Digit))),
                     Star False (Cls Word)]"

definition tarball_regex :: re where
  "tarball_regex = seq [
     lit ''http'', opt (lit ''s''), lit ''://'', Star True any_re,
     lit ''sourceforge'', any_re, lit ''net/project'', opt (lit ''s''), lit ''/'',
     Group 1 (plus True any_re), lit ''/files/'',
     opt (Group 2 (Cat (plus True any_re) (lit ''/''))),
     Group 3 (plus False any_re), lit ''-'', Group 4 version_re, lit ''.'',
     Alt (lit ''zip'') (seq [lit ''tar.'', plus True any_re, lit ''z'', Star True any_re]),
     opt (lit ''/download''),
     End_text]"

text \<open>
  \<open>ProjectRegex\<close>, line 38:
  \<^verbatim>\<open>https?://.*sourceforge.net/projects?/(.+)/(?:files/)?(.+?/)?(.+?)-([\d]+(?:.\d+)*\w*?).+$\<close>
\<close>

definition project_regex :: re where
  "project_regex = seq [
     lit ''http'', opt (lit ''s''), lit ''://'', Star True any_re,
     lit ''sourceforge'', any_re, lit ''net/project'', opt (lit ''s''), lit ''/'',
     Group 1 (plus True any_re), lit ''/'', opt (lit ''files/''),
     opt (Group 2 (Cat (plus False any_re) (lit ''/''))),
     Group 3 (plus False any_re), lit ''-'', Group 4 version_re,
     plus True any_re,
     End_text]"

section \<open>The feed and its conversion\<close>

text \<open>\<open>API\<close> and \<open>fmt.Sprintf(API, project, path)\<close> (lines 31, 106).\<close>

definition api_url :: "string \<Rightarrow> string \<Rightarrow> string" where
  "api_url project path = ''https://sourceforge.net/projects/'' @ project @ ''/rss?path=/'' @ path"

record item =
  link :: string
  date :: string

record feed =
  items :: "item list"

text \<open>
  \<open>toResults\<close> (lines 56--69): every item whose link matches \<open>TarballRegex\<close> becomes
  a release named after the query, versioned by the fourth group, located at the link and
  published at the item's date with \<open>"C"\<close> appended, parsed as RFC 1123; a date that
  does not parse leaves the zero time.
\<close>

definition item_pub :: "(string \<Rightarrow> time option) \<Rightarrow> item \<Rightarrow> time" where
  "item_pub rfc1123 it = (case rfc1123 (date it @ ''C'') of Some t \<Rightarrow> t | None \<Rightarrow> zero_time)"

fun to_results_loop :: "(string \<Rightarrow> time option) \<Rightarrow> string \<Rightarrow> item list \<Rightarrow> result_set \<Rightarrow> result_set" where
  "to_results_loop rfc1123 n [] rs = rs"
| "to_results_loop rfc1123 n (it # its) rs =
     (let sm = find_submatch tarball_regex (link it) in
      if length sm \<noteq> 5 then to_results_loop rfc1123 n its rs
      else to_results_loop rfc1123 n its
             (add_result (new_result n (sm ! 4) (link it) (item_pub rfc1123 it)) rs))"

definition to_results :: "(string \<Rightarrow> time option) \<Rightarrow> feed \<Rightarrow> string \<Rightarrow> result_set" where
  "to_results rfc1123 f n = to_results_loop rfc1123 n (items f) (new_result_set n)"

section \<open>The provider\<close>

definition sf_name :: string where
  "sf_name = ''SourceForge''"

text \<open>\<open>Match\<close> (lines 81--91).\<close>

definition sf_match :: "string \<Rightarrow> string" where
  "sf_match q =
     (let sm = find_submatch tarball_regex q;
          sm' = (if length sm \<noteq> 5 then find_submatch project_regex q else sm)
      in if length sm' \<noteq> 5 then '''' else sm' ! 0)"

text \<open>
  The first lines of \<open>Releases\<close> (100--104): match the name with the strict grammar
  and otherwise with the loose one, whose groups 1 and 3 are then exchanged. The
  exchange indexes the slice without a length check, so it panics when neither grammar
  matches.
\<close>

definition sf_captures :: "string \<Rightarrow> string list go" where
  "sf_captures n =
     (let sm = find_submatch tarball_regex n in
      if length sm \<noteq> 5 then go_swap 1 3 (find_submatch project_regex n) else Inr sm)"

text \<open>
  \<open>Releases\<close> (lines 98--140). The result set is \<open>nil\<close> (\<open>None\<close>) on every early
  return; a decoded feed with no convertible item is reported as \<open>NotFound\<close> together
  with its empty result set. The indices 1, 2 and 3 are in range: a successful match has
  five strings (lemma \<open>sf_captures_length\<close>).
\<close>

definition sf_releases ::
  "(string \<Rightarrow> feed http_result) \<Rightarrow> (string \<Rightarrow> time option) \<Rightarrow> string \<Rightarrow> (result_set option \<times> status) go" where
  "sf_releases get rfc1123 n = go_bind (sf_captures n) (\<lambda>sm.
     case get (api_url (sm ! 1) (sm ! 2)) of
       Transport_error \<Rightarrow> Inr (None, Unavailable)
     | Http_response code body \<Rightarrow>
         (if translate_status code \<noteq> OK then Inr (None, translate_status code)
          else case body of
            None \<Rightarrow> Inr (None, Unavailable)
          | Some f \<Rightarrow>
              (let rs = to_results rfc1123 f (sm ! 3)
               in Inr (Some rs, if rs_len rs = 0 then Not_found else OK))))"

text \<open>\<open>Latest\<close> (lines 71--79): the first release of a successful answer.\<close>

definition sf_latest ::
  "(string \<Rightarrow> feed http_result) \<Rightarrow> (string \<Rightarrow> time option) \<Rightarrow> string \<Rightarrow> (result option \<times> status) go" where
  "sf_latest get rfc1123 n = go_bind (sf_releases get rfc1123 n) (\<lambda>(rs, s).
     if s \<noteq> OK then Inr (None, s)
     else case rs of None \<Rightarrow> Inl Nil_dereference | Some rs' \<Rightarrow> Inr (rs_first rs', s))"

definition sf_provider :: "(string \<Rightarrow> feed http_result) \<Rightarrow> (string \<Rightarrow> time option) \<Rightarrow> provider" where
  "sf_provider get rfc1123 =
     \<lparr>p_name = sf_name, p_match = sf_match, p_releases = sf_releases get rfc1123\<rparr>"

text \<open>Vocabulary of the lemmas: an item the conversion keeps, and the release it
  becomes.\<close>

definition item_ok :: "item \<Rightarrow> bool" where
  "item_ok it = (find_submatch tarball_regex (link it) \<noteq> [])"

definition conv_item :: "(string \<Rightarrow> time option) \<Rightarrow> string \<Rightarrow> item \<Rightarrow> result" where
  "conv_item p n it = new_result n (find_submatch tarball_regex (link it) ! 4) (link it) (item_pub p it)"

text \<open>What \<open>Match\<close> is meant to return, without the matcher: both grammars end
  with \<open>$\<close>, so a match is a suffix of the query, and the leftmost match is the longest
  suffix in the grammar's language. The strict grammar is preferred.\<close>

definition sf_match_spec :: "string \<Rightarrow> string" where
  "sf_match_spec q =
     (case longest_match tarball_regex q of
        Some w \<Rightarrow> w
      | None \<Rightarrow> (case longest_match project_regex q of Some w \<Rightarrow> w | None \<Rightarrow> ''''))"

section \<open>Example inputs\<close>

text \<open>The link of the specification's example, and a feed holding it.\<close>

definition sf_example_link :: string where
  "sf_example_link = ''https://sourceforge.net/projects/foo/files/bar-1.2.3.tar.gz/download''"

definition sf_example_feed :: feed where
  "sf_example_feed = \<lparr>items = [\<lparr>link = sf_example_link, date = ''Mon, 02 Jan 2006 15:04:05 UT''\<rparr>,
                              \<lparr>link = ''https://example.org/readme'', date = ''''\<rparr>]\<rparr>"

definition sf_dup_feed :: feed where
  "sf_dup_feed = \<lparr>items = [\<lparr>link = sf_example_link, date = ''''\<rparr>,
                           \<lparr>link = ''https://sourceforge.net/projects/foo/files/bar-1.2.3.zip'', date = ''''\<rparr>]\<rparr>"

section \<open>Lemmas\<close>

subsection \<open>Shape of the grammars and of the captures\<close>

lemma regex_shapes:
  "num_groups tarball_regex = 4" "num_groups project_regex = 4"
  "anchored tarball_regex" "anchored project_regex"
  by (simp_all add: tarball_regex_def project_regex_def version_re_def regexp_simps)

lemma find_submatch_5:
  "length (find_submatch tarball_regex q) \<noteq> 5 \<longleftrightarrow> find_submatch tarball_regex q = []"
  "length (find_submatch project_regex q) \<noteq> 5 \<longleftrightarrow> find_submatch project_regex q = []"
  using find_submatch_length[of tarball_regex q] find_submatch_length[of project_regex q]
  by (auto simp: regex_shapes)

lemma find_submatch_len5:
  "find_submatch tarball_regex q = [] \<or> length (find_submatch tarball_regex q) = 5"
  "find_submatch project_regex q = [] \<or> length (find_submatch project_regex q) = 5"
  using find_submatch_length[of tarball_regex q] find_submatch_length[of project_regex q]
  by (auto simp: regex_shapes)

lemma sf_captures_length: "sf_captures n = Inr sm \<Longrightarrow> length sm = 5"
  using find_submatch_len5[of n]
  by (auto simp: sf_captures_def go_swap_def Let_def split: if_splits)

lemma sf_match_grammars:
  assumes "sf_match q \<noteq> ''''"
  shows "find_submatch tarball_regex (sf_match q) = find_submatch tarball_regex q \<and>
         (find_submatch tarball_regex q = [] \<longrightarrow>
            find_submatch project_regex q \<noteq> [] \<and>
            find_submatch project_regex (sf_match q) = find_submatch project_regex q)"
proof (cases "find_submatch tarball_regex q = []")
  case False
  then have m: "sf_match q = find_submatch tarball_regex q ! 0"
    by (simp add: sf_match_def find_submatch_5)
  from False find_submatch_at_match[of tarball_regex q] regex_shapes False show ?thesis
    by (simp add: m)
next
  case True
  with assms have P: "find_submatch project_regex q \<noteq> []"
    by (auto simp: sf_match_def find_submatch_5)
  with True have m: "sf_match q = find_submatch project_regex q ! 0"
    by (simp add: sf_match_def find_submatch_5)
  from P find_submatch_at_match[of project_regex q] regex_shapes
  have suf: "suffix (sf_match q) q"
    and pr: "find_submatch project_regex (sf_match q) = find_submatch project_regex q"
    by (simp_all add: m)
  from True suf have "find_submatch tarball_regex (sf_match q) = []"
    by (rule find_submatch_suffix_Nil)
  with True P pr show ?thesis by simp
qed

lemma sf_match_captures:
  assumes "sf_match q \<noteq> ''''"
  shows "sf_captures (sf_match q) = sf_captures q \<and> \<not> isl (sf_captures q)"
  using sf_match_grammars[OF assms] find_submatch_len5[of q]
  by (auto simp: sf_captures_def find_submatch_5 go_swap_def Let_def)

subsection \<open>The conversion\<close>

lemma to_results_loop_step:
  "to_results_loop p n (it # its) rs =
     to_results_loop p n its (if item_ok it then add_result (conv_item p n it) rs else rs)"
  by (simp add: item_ok_def conv_item_def find_submatch_5 Let_def)

declare to_results_loop.simps(2) [simp del]

lemma to_results_loop_query: "query (to_results_loop p n its rs) = query rs"
  by (induction its arbitrary: rs) (simp_all add: to_results_loop_step add_result_def)

lemma set_add_to_sub: "set (add_to r xs) \<subseteq> insert r (set xs)"
  by (induction xs) auto

lemma to_results_loop_sound:
  "r \<in> set (results (to_results_loop p n its rs)) \<Longrightarrow>
   r \<in> set (results rs) \<or> (\<exists>it \<in> set its. item_ok it \<and> r = conv_item p n it)"
proof (induction its arbitrary: rs)
  case (Cons it its)
  then show ?case
    using set_add_to_sub[of "conv_item p n it" "results rs"]
    by (fastforce simp: to_results_loop_step add_result_def split: if_splits)
qed simp

lemma to_results_loop_empty:
  "results (to_results_loop p n its rs) = [] \<longleftrightarrow> results rs = [] \<and> (\<forall>it \<in> set its. \<not> item_ok it)"
proof (induction its arbitrary: rs)
  case (Cons it its)
  have "add_to r xs \<noteq> []" for r xs by (cases xs) auto
  with Cons show ?case by (auto simp: to_results_loop_step add_result_def)
qed simp

lemma to_results_loop_lookup:
  "rs_inv rs \<Longrightarrow>
   rs_lookup (to_results_loop p n its rs) (n, v) =
     (case find (\<lambda>it. item_ok it \<and> find_submatch tarball_regex (link it) ! 4 = v) (rev its) of
        Some it \<Rightarrow> Some (conv_item p n it)
      | None \<Rightarrow> rs_lookup rs (n, v))"
proof (induction its arbitrary: rs)
  case (Cons it its)
  have inv: "rs_inv (if item_ok it then add_result (conv_item p n it) rs else rs)"
    using Cons.prems by (simp add: rs_inv_def add_result_def distinct_add_to)
  show ?case
    using Cons.IH[OF inv] Cons.prems
    by (auto simp: to_results_loop_step rs_lookup_def add_result_def find_add_to rs_inv_def
        conv_item_def split: option.splits)
qed simp

lemma to_results_loop_keys:
  "distinct (map result_key (results rs)) \<Longrightarrow>
   map result_key (results (to_results_loop p n its rs)) =
     rev (remdups (rev (map result_key (results rs) @
       map (\<lambda>it. (n, find_submatch tarball_regex (link it) ! 4)) (filter item_ok its))))"
proof (induction its arbitrary: rs)
  case Nil
  then show ?case by (simp add: distinct_remdups_id)
next
  case (Cons it its)
  show ?case
  proof (cases "item_ok it")
    case False
    with Cons show ?thesis by (simp add: to_results_loop_step)
  next
    case True
    let ?r = "conv_item p n it"
    have k: "result_key ?r = (n, find_submatch tarball_regex (link it) ! 4)"
      by (simp add: conv_item_def)
    have d: "distinct (map result_key (results (add_result ?r rs)))"
      using Cons.prems by (simp add: add_result_def distinct_add_to)
    from Cons.IH[OF d] True k show ?thesis
      by (simp add: to_results_loop_step add_result_def map_key_add_to remdups_insert_dup)
  qed
qed

lemma rs_first_key_loop:
  "map_option result_key (rs_first (to_results_loop p n its rs)) =
     (case rs_first rs of
        Some r \<Rightarrow> Some (result_key r)
      | None \<Rightarrow> map_option (\<lambda>it. (n, find_submatch tarball_regex (link it) ! 4)) (find item_ok its))"
proof (induction its arbitrary: rs)
  case (Cons it its)
  show ?case
  proof (cases "item_ok it")
    case True
    have "map_option result_key (rs_first (add_result (conv_item p n it) rs)) =
          (case rs_first rs of Some r \<Rightarrow> Some (result_key r)
           | None \<Rightarrow> Some (n, find_submatch tarball_regex (link it) ! 4))"
      by (cases "results rs")
         (auto simp: rs_first_def add_result_def conv_item_def new_result_def result_key_def)
    with Cons.IH[of "add_result (conv_item p n it) rs"] True show ?thesis
      by (auto simp: to_results_loop_step rs_first_def split: option.splits list.splits)
  next
    case False
    with Cons.IH[of rs] show ?thesis by (simp add: to_results_loop_step split: option.split)
  qed
qed (simp split: option.split)

lemma to_results_first:
  "rs_first (to_results p f n) =
     (case find item_ok (items f) of
        None \<Rightarrow> None
      | Some it \<Rightarrow> map_option (conv_item p n)
           (find (\<lambda>it'. item_ok it' \<and>
                        find_submatch tarball_regex (link it') ! 4 = find_submatch tarball_regex (link it) ! 4)
                 (rev (items f))))"
proof (cases "find item_ok (items f)")
  case None
  then have "map_option result_key (rs_first (to_results p f n)) = None"
    using rs_first_key_loop[of p n "items f" "new_result_set n"]
    by (simp add: to_results_def rs_first_def new_result_set_def)
  with None show ?thesis by simp
next
  case (Some it)
  with rs_first_key_loop[of p n "items f" "new_result_set n"]
  obtain r where r: "rs_first (to_results p f n) = Some r"
    and k: "result_key r = (n, find_submatch tarball_regex (link it) ! 4)"
    by (auto simp: to_results_def rs_first_def new_result_set_def)
  from rs_first_lookup[OF r] k have "rs_lookup (to_results p f n) (n, find_submatch tarball_regex (link it) ! 4) = Some r"
    by simp
  with to_results_loop_lookup[of "new_result_set n" p n "items f" "find_submatch tarball_regex (link it) ! 4"] r Some
  show ?thesis
    by (simp add: to_results_def split: option.splits)
qed

subsection \<open>Releases\<close>

lemma to_results_empty_iff:
  "rs_len (to_results p f n) = 0 \<longleftrightarrow> (\<forall>it \<in> set (items f). \<not> item_ok it)"
  by (simp add: to_results_def rs_len_def to_results_loop_empty new_result_set_def)

lemma sf_releases_captured:
  "sf_captures n = Inr sm \<Longrightarrow>
   sf_releases get p n =
     (case get (api_url (sm ! 1) (sm ! 2)) of
        Transport_error \<Rightarrow> Inr (None, Unavailable)
      | Http_response code body \<Rightarrow>
          (if translate_status code \<noteq> OK then Inr (None, translate_status code)
           else case body of
             None \<Rightarrow> Inr (None, Unavailable)
           | Some f \<Rightarrow> Inr (Some (to_results p f (sm ! 3)),
                            if rs_len (to_results p f (sm ! 3)) = 0 then Not_found else OK)))"
  unfolding sf_releases_def Let_def by simp

lemma sf_releases_OK_source:
  assumes "sf_releases get p n = Inr (rs, OK)"
  shows "\<exists>sm f. sf_captures n = Inr sm \<and> get (api_url (sm ! 1) (sm ! 2)) = Http_response 200 (Some f) \<and>
           rs = Some (to_results p f (sm ! 3)) \<and> 0 < rs_len (to_results p f (sm ! 3))"
proof (cases "sf_captures n")
  case (Inl e)
  with assms show ?thesis by (simp add: sf_releases_def)
next
  case (Inr sm)
  with assms show ?thesis
    by (auto simp: sf_releases_captured translate_status_OK_iff
             split: http_result.splits if_splits option.splits)
qed

lemma sf_provider_contract: "releases_contract (sf_provider get p)"
  by (auto simp: releases_contract_def sf_provider_def dest!: sf_releases_OK_source)

lemma sf_example_captures:
  "sf_captures sf_example_link = Inr [sf_example_link, ''foo'', '''', ''bar'', ''1.2.3'']"
  unfolding sf_example_link_def by code_simp

lemma sf_example_match:
  "sf_match sf_example_link = sf_example_link \<and>
   find_submatch tarball_regex sf_example_link = [sf_example_link, ''foo'', '''', ''bar'', ''1.2.3'']"
  unfolding sf_example_link_def by code_simp

lemma sf_example_results:
  "new_result ''bar'' ''1.2.3'' sf_example_link 0 \<in> set (results (to_results (\<lambda>_. None) sf_example_feed ''bar''))"
  unfolding sf_example_feed_def sf_example_link_def by code_simp

lemma tarball_group4: "Group 4 r' \<in> set (subs tarball_regex) \<Longrightarrow> r' = version_re"
  by (simp add: tarball_regex_def version_re_def re_syntax_defs)

lemma tarball_must4: "must tarball_regex 4"
  by (simp add: tarball_regex_def re_syntax_defs)

lemma sf_example_feed_ok: "\<not> (\<forall>it \<in> set (items sf_example_feed). find_submatch tarball_regex (link it) = [])"
  unfolding sf_example_feed_def sf_example_link_def by code_simp

subsection \<open>Properties\<close>

text \<open>
  C2. \<open>Releases\<close> classifies every failure of the transport as the specification
  says: no response, an HTTP status other than 200 and 404, or a body that does not
  decode give \<open>Unavailable\<close>; 404 gives \<open>NotFound\<close>; in each case the result set
  is \<open>nil\<close>.
\<close>

theorem sf_releases_failures:
  assumes "sf_captures n = Inr sm" and "u = api_url (sm ! 1) (sm ! 2)"
  shows "(get u = Transport_error \<longrightarrow> sf_releases get p n = Inr (None, Unavailable)) \<and>
         (get u = Http_response 404 b \<longrightarrow> sf_releases get p n = Inr (None, Not_found)) \<and>
         (code \<noteq> 200 \<and> code \<noteq> 404 \<and> get u = Http_response code b \<longrightarrow>
            sf_releases get p n = Inr (None, Unavailable)) \<and>
         (get u = Http_response 200 None \<longrightarrow> sf_releases get p n = Inr (None, Unavailable))"
  using assms by (simp add: sf_releases_captured)

theorem sf_releases_failures_witness:
  "sf_captures sf_example_link = Inr [sf_example_link, ''foo'', '''', ''bar'', ''1.2.3''] \<and>
   sf_releases (\<lambda>_. Http_response 404 None) (\<lambda>_. None) sf_example_link = Inr (None, Not_found) \<and>
   sf_releases (\<lambda>_. Http_response 500 None) (\<lambda>_. None) sf_example_link = Inr (None, Unavailable)"
  using sf_releases_failures[OF sf_example_captures refl, where get = "\<lambda>_. Http_response 404 None"
          and p = "\<lambda>_. None" and b = None and code = 0]
        sf_releases_failures[OF sf_example_captures refl, where get = "\<lambda>_. Http_response 500 None"
          and p = "\<lambda>_. None" and b = None and code = 500]
  by (simp add: sf_example_captures)

text \<open>
  C3. When the feed arrives (HTTP 200) and decodes, \<open>Releases\<close> returns the
  conversion of the feed under the artifact name, with status \<open>OK\<close> when some item's
  link matches the strict grammar and \<open>NotFound\<close> when none does: an empty successful
  answer counts as not found.
\<close>

theorem sf_releases_decoded:
  assumes "sf_captures n = Inr sm" and "get (api_url (sm ! 1) (sm ! 2)) = Http_response 200 (Some f)"
  shows "sf_releases get p n =
           Inr (Some (to_results p f (sm ! 3)),
                if \<forall>it \<in> set (items f). find_submatch tarball_regex (link it) = [] then Not_found else OK)"
  using assms by (simp add: sf_releases_captured to_results_empty_iff item_ok_def)

theorem sf_releases_decoded_witness:
  "sf_releases (\<lambda>_. Http_response 200 (Some sf_example_feed)) (\<lambda>_. None) sf_example_link =
     Inr (Some (to_results (\<lambda>_. None) sf_example_feed ''bar''), OK) \<and>
   sf_releases (\<lambda>_. Http_response 200 (Some \<lparr>items = []\<rparr>)) (\<lambda>_. None) sf_example_link =
     Inr (Some (to_results (\<lambda>_. None) \<lparr>items = []\<rparr> ''bar''), Not_found)"
  using sf_releases_decoded[OF sf_example_captures, where get = "\<lambda>_. Http_response 200 (Some sf_example_feed)"
          and f = sf_example_feed and p = "\<lambda>_. None"]
        sf_releases_decoded[OF sf_example_captures, where get = "\<lambda>_. Http_response 200 (Some \<lparr>items = []\<rparr>)"
          and f = "\<lparr>items = []\<rparr>" and p = "\<lambda>_. None"]
        sf_example_feed_ok
  by simp

text \<open>
  C4. \<open>Releases\<close> reports \<open>OK\<close> only with a result set that holds at least one
  release: the command may print it without meeting \<open>nil\<close> or an empty set.
\<close>

theorem sf_releases_OK_nonempty:
  "sf_releases get p n = Inr (rs, OK) \<Longrightarrow> \<exists>rs'. rs = Some rs' \<and> 0 < rs_len rs'"
  by (blast dest: sf_releases_OK_source)

theorem sf_releases_OK_nonempty_witness:
  "sf_releases (\<lambda>_. Http_response 200 (Some sf_example_feed)) (\<lambda>_. None) sf_example_link =
     Inr (Some (to_results (\<lambda>_. None) sf_example_feed ''bar''), OK) \<and>
   0 < rs_len (to_results (\<lambda>_. None) sf_example_feed ''bar'')"
proof -
  have h: "sf_releases (\<lambda>_. Http_response 200 (Some sf_example_feed)) (\<lambda>_. None) sf_example_link =
             Inr (Some (to_results (\<lambda>_. None) sf_example_feed ''bar''), OK)"
    using sf_example_captures sf_example_feed_ok by (simp add: sf_releases_captured to_results_empty_iff item_ok_def)
  from sf_releases_OK_nonempty[OF h] h show ?thesis by auto
qed

text \<open>
  C7. The conversion keeps, for each version, the release of the last feed item that
  carries it (the specification's "last-seen wins"), and nothing for a version no item
  carries; every release is named after the query.
\<close>

theorem to_results_last_wins:
  "rs_lookup (to_results p f n) (n', v) =
     (if n' \<noteq> n then None
      else map_option (conv_item p n)
             (find (\<lambda>it. item_ok it \<and> find_submatch tarball_regex (link it) ! 4 = v) (rev (items f))))"
proof (cases "n' = n")
  case True
  have "rs_inv (new_result_set n)" by (simp add: rs_inv_def new_result_set_def)
  from to_results_loop_lookup[OF this, where p = p and its = "items f" and v = v] True
  show ?thesis
    by (simp add: to_results_def rs_lookup_def new_result_set_def split: option.splits)
next
  case False
  have "name r = n" if "r \<in> set (results (to_results p f n))" for r
    using to_results_loop_sound[of r p n "items f" "new_result_set n"] that
    by (auto simp: to_results_def new_result_set_def conv_item_def new_result_def)
  with False have "find (\<lambda>r. result_key r = (n', v)) (results (to_results p f n)) = None"
    by (auto simp: find_None_iff result_key_def)
  with False show ?thesis by (simp add: rs_lookup_def)
qed

text \<open>
  C8. \<open>toResults\<close> lists exactly one release per version that a matching link of the
  feed carries, under the queried name, in the order in which each version first
  appears among the matching items: a later item with the same version replaces the
  release in its place, and items whose link does not match are skipped.
  (\<open>rev (remdups (rev xs))\<close> keeps the first occurrence of each element of \<open>xs\<close>.)
\<close>

theorem to_results_keys:
  "map result_key (results (to_results p f n)) =
     rev (remdups (rev (map (\<lambda>it. (n, find_submatch tarball_regex (link it) ! 4)) (filter item_ok (items f)))))"
  using to_results_loop_keys[of "new_result_set n" p n "items f"]
  by (simp add: to_results_def new_result_set_def)

text \<open>
  C9. \<open>Match\<close> refines its declarative specification \<open>sf_match_spec\<close>: it
  returns the longest suffix of the query that the strict grammar accepts, otherwise the
  longest suffix that the loose grammar accepts, otherwise the empty string.
\<close>

theorem sf_match_refines_spec: "sf_match q = sf_match_spec q"
proof (cases "find_submatch tarball_regex q = []")
  case True
  then have t: "longest_match tarball_regex q = None"
    by (simp add: longest_match_None regex_shapes)
  show ?thesis
  proof (cases "find_submatch project_regex q = []")
    case P: True
    then have "longest_match project_regex q = None"
      by (simp add: longest_match_None regex_shapes)
    with True P t show ?thesis by (simp add: sf_match_def sf_match_spec_def find_submatch_5)
  next
    case P: False
    with True t show ?thesis
      by (simp add: sf_match_def sf_match_spec_def find_submatch_5 longest_match_Some regex_shapes)
  qed
next
  case False
  then show ?thesis
    by (simp add: sf_match_def sf_match_spec_def find_submatch_5 longest_match_Some regex_shapes)
qed

text \<open>
  C14. \<open>Releases\<close> called with a name that neither grammar matches panics (index out
  of range) at the exchange of groups 1 and 3, before any request is made.
\<close>

theorem sf_releases_panics_unmatched:
  assumes "find_submatch tarball_regex n = []" and "find_submatch project_regex n = []"
  shows "sf_releases get p n = Inl Index_out_of_range"
  using assms by (simp add: sf_releases_def sf_captures_def go_swap_def)

theorem sf_releases_panics_unmatched_witness:
  "find_submatch tarball_regex ''cuppa'' = [] \<and> find_submatch project_regex ''cuppa'' = [] \<and>
   sf_releases (\<lambda>_. Transport_error) (\<lambda>_. None) ''cuppa'' = Inl Index_out_of_range"
proof -
  have t: "find_submatch tarball_regex ''cuppa'' = []" by code_simp
  have q: "find_submatch project_regex ''cuppa'' = []" by code_simp
  from sf_releases_panics_unmatched[OF t q] t q show ?thesis by simp
qed

text \<open>
  C15. Every release of the conversion comes from a feed item whose link matches the
  strict grammar: named after the query, versioned by the link's fourth group, located at
  the link and published at the item's parsed date.
\<close>

theorem to_results_sound:
  assumes "r \<in> set (results (to_results p f n))"
  shows "\<exists>it \<in> set (items f). find_submatch tarball_regex (link it) \<noteq> [] \<and>
           r = new_result n (find_submatch tarball_regex (link it) ! 4) (link it) (item_pub p it)"
  using to_results_loop_sound[of r p n "items f" "new_result_set n"] assms
  by (auto simp: to_results_def new_result_set_def item_ok_def conv_item_def)

theorem to_results_sound_witness:
  "new_result ''bar'' ''1.2.3'' sf_example_link 0 \<in> set (results (to_results (\<lambda>_. None) sf_example_feed ''bar'')) \<and>
   (\<exists>it \<in> set (items sf_example_feed). find_submatch tarball_regex (link it) \<noteq> [] \<and>
      new_result ''bar'' ''1.2.3'' sf_example_link 0 =
        new_result ''bar'' (find_submatch tarball_regex (link it) ! 4) (link it) (item_pub (\<lambda>_. None) it))"
proof -
  from to_results_sound[OF sf_example_results] sf_example_results show ?thesis by simp
qed

text \<open>
  C16. \<open>Latest\<close> adds no failure of its own: whenever \<open>Releases\<close> does not panic,
  \<open>Latest\<close> returns, and with status \<open>OK\<close> it returns a release.
\<close>

theorem sf_latest_total:
  assumes "\<not> isl (sf_releases get p n)"
  shows "\<exists>r s. sf_latest get p n = Inr (r, s) \<and> (s = OK \<longrightarrow> r \<noteq> None)"
proof (cases "sf_releases get p n")
  case (Inl e)
  with assms show ?thesis by simp
next
  case (Inr res)
  then show ?thesis
    by (cases res) (auto simp: sf_latest_def rs_first_def rs_len_def
                         dest!: sf_releases_OK_source split: list.splits)
qed

theorem sf_latest_total_witness:
  "\<not> isl (sf_releases (\<lambda>_. Http_response 200 (Some sf_example_feed)) (\<lambda>_. None) sf_example_link) \<and>
   (\<exists>r s. sf_latest (\<lambda>_. Http_response 200 (Some sf_example_feed)) (\<lambda>_. None) sf_example_link = Inr (r, s) \<and>
          (s = OK \<longrightarrow> r \<noteq> None))"
proof -
  have h: "\<not> isl (sf_releases (\<lambda>_. Http_response 200 (Some sf_example_feed)) (\<lambda>_. None) sf_example_link)"
    using sf_example_captures by (simp add: sf_releases_captured)
  from sf_latest_total[OF h] h show ?thesis by simp
qed

text \<open>The dot of \<open>sourceforge.net\<close> is not escaped in either grammar, so
  \<open>Match\<close> accepts URLs of other hosts, such as \<open>sourceforgeXnet\<close>.\<close>

lemma sf_match_unescaped_dot:
  "sf_match ''https://sourceforgeXnet/projects/foo/files/bar-1.2.zip'' =
     ''https://sourceforgeXnet/projects/foo/files/bar-1.2.zip''"
  by code_simp

text \<open>
  C24. Every release \<open>toResults\<close> produces carries the queried name and a version that
  is the text of group 4 of one of the feed's links, matched there by the version grammar
  \<open>\d+(?:.\d+)*\w*?\<close>: the version is a well-formed version string, never empty.
\<close>

theorem to_results_versions:
  assumes "r \<in> set (results (to_results p f n))"
  shows "name r = n \<and>
         (\<exists>it \<in> set (items f). \<exists>pre t. link it = pre @ version r @ t \<and> lm version_re (version r) t)"
proof -
  from to_results_loop_sound[of r p n "items f" "new_result_set n"] assms
  obtain it where it: "it \<in> set (items f)" "item_ok it" "r = conv_item p n it"
    by (auto simp: to_results_def new_result_set_def)
  let ?sm = "find_submatch tarball_regex (link it)"
  from it(2) have "length ?sm = 5"
    using find_submatch_length[of tarball_regex "link it"] regex_shapes by (simp add: item_ok_def)
  then have "4 < length ?sm" by simp
  from find_submatch_group_match[OF refl _ this tarball_must4] obtain r' pre t
    where "Group 4 r' \<in> set (subs tarball_regex)" "link it = pre @ ?sm ! 4 @ t" "lm r' (?sm ! 4) t"
    by auto
  with it tarball_group4 show ?thesis
    by (auto simp: conv_item_def new_result_def)
qed

theorem to_results_versions_witness:
  "new_result ''bar'' ''1.2.3'' sf_example_link 0 \<in> set (results (to_results (\<lambda>_. None) sf_example_feed ''bar'')) \<and>
   (\<exists>it \<in> set (items sf_example_feed). \<exists>pre t. link it = pre @ ''1.2.3'' @ t \<and> lm version_re ''1.2.3'' t)"
  using to_results_versions[OF sf_example_results] sf_example_results by (simp add: new_result_def)

text \<open>
  C11. What \<open>Latest\<close> reports for a decoded feed: \<open>NotFound\<close> when no item link
  matches the strict grammar; otherwise \<open>OK\<close> with the version of the first matching
  item, but with the link and publication date of the last item carrying that
  version, because \<open>AddResult\<close> overwrites in place. For a newest-first feed in which a
  version appears twice, the reported date is the older one.
\<close>

theorem sf_latest_first:
  assumes "sf_captures n = Inr sm" and "get (api_url (sm ! 1) (sm ! 2)) = Http_response 200 (Some f)"
  shows "sf_latest get p n =
           Inr (case find item_ok (items f) of
                  None \<Rightarrow> (None, Not_found)
                | Some it \<Rightarrow>
                    (map_option (conv_item p (sm ! 3))
                       (find (\<lambda>it'. item_ok it' \<and>
                          find_submatch tarball_regex (link it') ! 4 = find_submatch tarball_regex (link it) ! 4)
                          (rev (items f))), OK))"
proof -
  have r: "sf_releases get p n =
           Inr (Some (to_results p f (sm ! 3)),
                if rs_len (to_results p f (sm ! 3)) = 0 then Not_found else OK)"
    using assms by (simp add: sf_releases_captured)
  have e: "rs_len (to_results p f (sm ! 3)) = 0 \<longleftrightarrow> find item_ok (items f) = None"
    by (auto simp: to_results_empty_iff find_None_iff)
  show ?thesis
    using r e to_results_first[of p f "sm ! 3"]
    by (simp add: sf_latest_def split: option.splits)
qed

theorem sf_latest_first_witness:
  "sf_latest (\<lambda>_. Http_response 200 (Some sf_dup_feed)) (\<lambda>_. None) sf_example_link =
     Inr (Some (new_result ''bar'' ''1.2.3'' ''https://sourceforge.net/projects/foo/files/bar-1.2.3.zip'' 0), OK)"
proof -
  have "sf_latest (\<lambda>_. Http_response 200 (Some sf_dup_feed)) (\<lambda>_. None) sf_example_link =
           Inr (case find item_ok (items sf_dup_feed) of
                  None \<Rightarrow> (None, Not_found)
                | Some it \<Rightarrow>
                    (map_option (conv_item (\<lambda>_. None) ([sf_example_link, ''foo'', '''', ''bar'', ''1.2.3''] ! 3))
                       (find (\<lambda>it'. item_ok it' \<and>
                          find_submatch tarball_regex (link it') ! 4 = find_submatch tarball_regex (link it) ! 4)
                          (rev (items sf_dup_feed))), OK))"
    by (rule sf_latest_first[OF sf_example_captures]) simp
  also have "\<dots> = Inr (Some (new_result ''bar'' ''1.2.3'' ''https://sourceforge.net/projects/foo/files/bar-1.2.3.zip'' 0), OK)"
    unfolding sf_dup_feed_def sf_example_link_def by code_simp
  finally show ?thesis .
qed

end
