(* ===== verification/SourceForge_IO.thy ===== *)
theory SourceForge_IO
  imports SourceForge
begin

text \<open>
  The effects of the SourceForge \<open>Releases\<close> (src/providers/sourceforge/provider.go,
  lines 98--140) beside its result: the HTTP request, the error lines written to
  standard error, and the release of the response body by \<open>defer resp.Body.Close()\<close>,
  which runs when the function returns, after everything else it does. The pure model
  \<open>sf_releases\<close> of SourceForge is the result part of this one.
\<close>

datatype sf_effect =
    Http_get string   \<comment> \<open>\<open>http.Get(fmt.Sprintf(API, sm[1], sm[2]))\<close>\<close>
  | Stderr_err        \<comment> \<open>\<open>fmt.Fprintln(os.Stderr, err.Error())\<close>\<close>
  | Body_close        \<comment> \<open>the deferred \<open>resp.Body.Close()\<close>\<close>

definition sf_releases_io ::
  "(string \<Rightarrow> feed http_result) \<Rightarrow> (string \<Rightarrow> time option) \<Rightarrow> string \<Rightarrow>
   (sf_effect list \<times> result_set option \<times> status) go" where
  "sf_releases_io get rfc1123 n = go_bind (sf_captures n) (\<lambda>sm.
     let u = api_url (sm ! 1) (sm ! 2) in
     case get u of
       Transport_error \<Rightarrow> Inr ([Http_get u, Stderr_err], None, Unavailable)
     | Http_response code body \<Rightarrow>
         (if translate_status code \<noteq> OK then Inr ([Http_get u, Body_close], None, translate_status code)
          else case body of
            None \<Rightarrow> Inr ([Http_get u, Stderr_err, Body_close], None, Unavailable)
          | Some f \<Rightarrow>
              (let rs = to_results rfc1123 f (sm ! 3)
               in Inr ([Http_get u, Body_close], Some rs, if rs_len rs = 0 then Not_found else OK))))"

section \<open>Lemmas\<close>

text \<open>Forgetting the effects gives the pure model: the result of \<open>sf_releases_io\<close>
  is \<open>sf_releases\<close>, on every input, panics included.\<close>

lemma sf_releases_io_result:
  "map_sum id snd (sf_releases_io get p n) = sf_releases get p n"
  by (cases "sf_captures n")
     (simp_all add: sf_releases_io_def sf_releases_def Let_def split: http_result.splits option.splits)

section \<open>Properties\<close>

text \<open>
  C13. The exchange of groups 1 and 3 after a match of the loose grammar does not
  correct a different capture order: both grammars capture the project in group 1 and the
  artifact in group 3. So for every name that only \<open>ProjectRegex\<close> matches,
  \<open>Releases\<close> requests the feed of the artifact (group 3) in the sub-path of group 2,
  and names the result set after the project (group 1). For the project page
  \<open>.../projects/foo/bar-1.2/\<close> it asks for the feed of a project \<open>bar\<close>.
\<close>

theorem sf_project_fallback_swap:
  assumes "find_submatch tarball_regex n = []" and "find_submatch project_regex n = sm" and "sm \<noteq> []"
  shows "\<exists>eff res. sf_releases_io get p n = Inr (Http_get (api_url (sm ! 3) (sm ! 2)) # eff, res) \<and>
           map_option query (fst res) \<in> {None, Some (sm ! 1)}"
proof -
  have "length sm = 5" using assms(2,3) find_submatch_len5[of n] by auto
  then have c: "sf_captures n = Inr (sm[1 := sm ! 3, 3 := sm ! 1])"
    using assms by (simp add: sf_captures_def go_swap_def find_submatch_5)
  have q: "query (to_results p f x) = x" for f x
    by (simp add: to_results_def to_results_loop_query new_result_set_def)
  from c \<open>length sm = 5\<close> show ?thesis
    by (auto simp: sf_releases_io_def Let_def q split: http_result.splits option.splits)
qed

theorem sf_project_fallback_swap_witness:
  "find_submatch tarball_regex ''https://sourceforge.net/projects/foo/bar-1.2/'' = [] \<and>
   find_submatch project_regex ''https://sourceforge.net/projects/foo/bar-1.2/'' =
     [''https://sourceforge.net/projects/foo/bar-1.2/'', ''foo'', '''', ''bar'', ''1.2''] \<and>
   (\<exists>eff res. sf_releases_io (\<lambda>_. Http_response 404 None) (\<lambda>_. None) ''https://sourceforge.net/projects/foo/bar-1.2/'' =
       Inr (Http_get (api_url ''bar'' '''') # eff, res) \<and> map_option query (fst res) \<in> {None, Some ''foo''})"
proof -
  have t: "find_submatch tarball_regex ''https://sourceforge.net/projects/foo/bar-1.2/'' = []" by code_simp
  have pr: "find_submatch project_regex ''https://sourceforge.net/projects/foo/bar-1.2/'' =
     [''https://sourceforge.net/projects/foo/bar-1.2/'', ''foo'', '''', ''bar'', ''1.2'']" by code_simp
  from sf_project_fallback_swap[OF t pr, of "\<lambda>_. Http_response 404 None" "\<lambda>_. None"] t pr
  show ?thesis by simp
qed

text \<open>
  C28. The transport resource is never leaked: every run that does not panic makes
  exactly one request; when the request returned a response its body is released
  exactly once, as the last effect, and when the request failed there is no body to
  release. An error line goes to standard error exactly when the request or the decoding
  failed.
\<close>

theorem sf_releases_io_body_closed:
  assumes "sf_releases_io get p n = Inr (eff, rs, s)"
  shows "\<exists>u. hd eff = Http_get u \<and> count (mset eff) (Http_get u) = 1 \<and>
           (get u = Transport_error \<longrightarrow> Body_close \<notin> set eff \<and> Stderr_err \<in> set eff) \<and>
           (get u \<noteq> Transport_error \<longrightarrow> last eff = Body_close \<and> count (mset eff) Body_close = 1 \<and>
              (Stderr_err \<in> set eff \<longleftrightarrow> (\<exists>code. get u = Http_response code None \<and> translate_status code = OK)))"
proof -
  from assms obtain sm where sm: "sf_captures n = Inr sm" by (cases "sf_captures n") (auto simp: sf_releases_io_def)
  let ?u = "api_url (sm ! 1) (sm ! 2)"
  from assms sm show ?thesis
    by (intro exI[of _ ?u])
       (auto simp: sf_releases_io_def Let_def split: http_result.splits option.splits if_splits)
qed

theorem sf_releases_io_body_closed_witness:
  "sf_releases_io (\<lambda>_. Http_response 404 None) (\<lambda>_. None) sf_example_link =
     Inr ([Http_get (api_url ''foo'' ''''), Body_close], None, Not_found) \<and>
   last [Http_get (api_url ''foo'' ''''), Body_close] = Body_close"
proof -
  have h: "sf_releases_io (\<lambda>_. Http_response 404 None) (\<lambda>_. None) sf_example_link =
     Inr ([Http_get (api_url ''foo'' ''''), Body_close], None, Not_found)"
    using sf_example_captures by (simp add: sf_releases_io_def)
  from sf_releases_io_body_closed[OF h] obtain u where
    "hd [Http_get (api_url ''foo'' ''''), Body_close] = Http_get u"
    "Http_response 404 None \<noteq> Transport_error \<longrightarrow> last [Http_get (api_url ''foo'' ''''), Body_close] = Body_close"
    by blast
  with h show ?thesis by simp
qed

end
