(* ===== verification/PyPI.thy ===== *)
theory PyPI
  imports Provider
begin

text \<open>
  The index-style adapter. src/providers/pypi/releases.go converts the decoded JSON
  document \<open>{"releases": {version: [file, ...]}}\<close> into a result set:
  \<open>ConvertURLS\<close> turns the files of one version into a release located at the last
  file, and \<open>Convert\<close> does so for every version of the map. A Go map is iterated in
  an unspecified order; the model takes the map as a list of entries with distinct keys,
  in the order of one iteration, and its theorems hold for every order. The date parser
  \<open>time.Parse(DateFormat, _)\<close> is the parameter \<open>parse_date\<close>. The provider's
  \<open>Match\<close> and \<open>Releases\<close> are not among the sources: \<open>Releases\<close> is modelled
  from the specification (section 4.2), and \<open>Match\<close> is a parameter.
\<close>

section \<open>The decoded document\<close>

record py_url =
  upload_time :: string
  url :: string

record py_releases =
  releases :: "(string \<times> py_url list) list"

section \<open>Conversion\<close>

text \<open>\<open>ConvertURLS\<close> (lines 24--33). \<open>cr[len(cr)-1]\<close> panics on a version
  without files.\<close>

definition convert_urls ::
  "(string \<Rightarrow> time option) \<Rightarrow> py_url list \<Rightarrow> string \<Rightarrow> string \<Rightarrow> result go" where
  "convert_urls parse_date cr n v =
     (if cr = [] then Inl Index_out_of_range
      else let u = last cr in
        Inr (new_result n v (url u)
               (case parse_date (upload_time u) of Some t \<Rightarrow> t | None \<Rightarrow> zero_time)))"

text \<open>\<open>Convert\<close> (lines 40--50); the test \<open>r != nil\<close> always holds.\<close>

fun convert_loop ::
  "(string \<Rightarrow> time option) \<Rightarrow> string \<Rightarrow> (string \<times> py_url list) list \<Rightarrow> result_set \<Rightarrow> result_set go" where
  "convert_loop parse_date n [] rs = Inr rs"
| "convert_loop parse_date n ((v, rel) # es) rs =
     (case convert_urls parse_date rel n v of
        Inl e \<Rightarrow> Inl e
      | Inr r \<Rightarrow> convert_loop parse_date n es (add_result r rs))"

definition convert :: "(string \<Rightarrow> time option) \<Rightarrow> py_releases \<Rightarrow> string \<Rightarrow> result_set go" where
  "convert parse_date crs n = convert_loop parse_date n (releases crs) (new_result_set n)"

section \<open>The provider\<close>

text \<open>
  \<open>Releases\<close> as the specification describes it for every adapter: the status code
  translated as in the SourceForge adapter, a body that does not decode is
  \<open>Unavailable\<close>, and an empty conversion is \<open>NotFound\<close>.
\<close>

definition pypi_releases ::
  "(string \<Rightarrow> py_releases http_result) \<Rightarrow> (string \<Rightarrow> time option) \<Rightarrow> string \<Rightarrow> (result_set option \<times> status) go" where
  "pypi_releases get parse_date n =
     (case get n of
        Transport_error \<Rightarrow> Inr (None, Unavailable)
      | Http_response code body \<Rightarrow>
          (if translate_status code \<noteq> OK then Inr (None, translate_status code)
           else case body of
             None \<Rightarrow> Inr (None, Unavailable)
           | Some crs \<Rightarrow> go_bind (convert parse_date crs n)
                           (\<lambda>rs. Inr (Some rs, if rs_len rs = 0 then Not_found else OK))))"

definition pypi_provider ::
  "(string \<Rightarrow> string) \<Rightarrow> (string \<Rightarrow> py_releases http_result) \<Rightarrow> (string \<Rightarrow> time option) \<Rightarrow> provider" where
  "pypi_provider m get parse_date =
     \<lparr>p_name = ''PyPi'', p_match = m, p_releases = pypi_releases get parse_date\<rparr>"

section \<open>Example input\<close>

text \<open>The specification's example document.\<close>

definition pypi_example :: py_releases where
  "pypi_example = \<lparr>releases = [(''1.0'', [\<lparr>upload_time = ''2016-01-01T00:00:00'',
                                             url = ''https://x/pkg-1.0.tar.gz''\<rparr>])]\<rparr>"

text \<open>The release one entry of the map becomes.\<close>

definition entry_release :: "(string \<Rightarrow> time option) \<Rightarrow> string \<Rightarrow> string \<times> py_url list \<Rightarrow> result" where
  "entry_release pd n e =
     new_result n (fst e) (url (last (snd e)))
       (case pd (upload_time (last (snd e))) of Some t \<Rightarrow> t | None \<Rightarrow> zero_time)"

section \<open>Lemmas\<close>

lemma convert_loop_panics:
  "isl (convert_loop pd n es rs) \<longleftrightarrow> (\<exists>(v, rel) \<in> set es. rel = [])"
proof (induction es arbitrary: rs)
  case (Cons e es)
  obtain v rel where e: "e = (v, rel)" by (cases e)
  show ?case
  proof (cases "rel = []")
    case True
    with e show ?thesis by (simp add: convert_urls_def)
  next
    case False
    with e Cons.IH show ?thesis by (auto simp: convert_urls_def Let_def)
  qed
qed simp

lemma convert_loop_fresh:
  assumes "distinct (map fst es)" and "\<forall>(v, rel) \<in> set es. rel \<noteq> []"
    and "\<forall>v \<in> fst ` set es. (n, v) \<notin> result_key ` set (results rs)"
  shows "convert_loop pd n es rs = Inr (rs\<lparr>results := results rs @ map (entry_release pd n) es\<rparr>)"
  using assms
proof (induction es arbitrary: rs)
  case (Cons e es)
  obtain v rel where e: "e = (v, rel)" by (cases e)
  with Cons.prems have rel: "rel \<noteq> []" by auto
  let ?r = "entry_release pd n (v, rel)"
  have c: "convert_urls pd rel n v = Inr ?r"
    using rel by (simp add: convert_urls_def entry_release_def Let_def)
  have fresh: "result_key ?r \<notin> set (map result_key (results rs))"
    using Cons.prems e by (auto simp: entry_release_def)
  then have add: "add_result ?r rs = rs\<lparr>results := results rs @ [?r]\<rparr>"
    by (simp add: add_result_def add_to_notin)
  have "\<forall>w \<in> fst ` set es. (n, w) \<notin> result_key ` set (results rs @ [?r])"
    using Cons.prems e by (auto simp: entry_release_def)
  with Cons.IH[of "rs\<lparr>results := results rs @ [?r]\<rparr>"] Cons.prems e c add show ?case
    by simp
qed simp

lemma convert_fresh:
  assumes "distinct (map fst (releases crs))" and "\<forall>(v, rel) \<in> set (releases crs). rel \<noteq> []"
  shows "convert pd crs n = Inr \<lparr>query = n, results = map (entry_release pd n) (releases crs)\<rparr>"
  using convert_loop_fresh[OF assms, of n "new_result_set n" pd]
  by (simp add: convert_def new_result_set_def)

lemma convert_loop_refines:
  "rs_inv rs \<Longrightarrow> convert_loop pd n es rs = Inr rs' \<Longrightarrow>
   rs_lookup rs' = fold (\<lambda>e m. m((n, fst e) \<mapsto> entry_release pd n e)) es (rs_lookup rs)"
proof (induction es arbitrary: rs)
  case (Cons e es)
  obtain v rel where e: "e = (v, rel)" by (cases e)
  with Cons.prems have "rel \<noteq> []" by (auto simp: convert_urls_def)
  then have c: "convert_urls pd rel n v = Inr (entry_release pd n (v, rel))"
    by (simp add: convert_urls_def entry_release_def Let_def)
  have k: "result_key (entry_release pd n (v, rel)) = (n, v)" by (simp add: entry_release_def)
  from Cons.prems e c have "convert_loop pd n es (add_result (entry_release pd n (v, rel)) rs) = Inr rs'" by simp
  from Cons.IH[OF rs_inv_add_result[OF Cons.prems(1)] this] Cons.prems(1) e k show ?case
    by (simp add: rs_lookup_add_result)
qed simp

lemma pypi_example_converted:
  "convert (\<lambda>_. None) pypi_example ''pkg'' =
     Inr \<lparr>query = ''pkg'', results = [new_result ''pkg'' ''1.0'' ''https://x/pkg-1.0.tar.gz'' 0]\<rparr>"
  by (simp add: convert_def pypi_example_def convert_urls_def add_result_def new_result_set_def zero_time_def)

subsection \<open>Properties\<close>

text \<open>
  C10. \<open>Convert\<close> panics (index out of range in
  \<open>ConvertURLS\<close>) exactly when some version of the document lists no file,
  whatever the iteration order of the map; the specification says only that the last
  file of each version is taken.
\<close>

theorem convert_panics_iff:
  "isl (convert pd crs n) \<longleftrightarrow> (\<exists>(v, rel) \<in> set (releases crs). rel = [])"
  by (simp add: convert_def convert_loop_panics)

theorem convert_panics_iff_witness:
  "isl (convert (\<lambda>_. None) \<lparr>releases = [(''1.0'', []), (''1.1'', [\<lparr>upload_time = '''', url = ''u''\<rparr>])]\<rparr> ''pkg'')"
  using convert_panics_iff[of "\<lambda>_. None" "\<lparr>releases = [(''1.0'', []), (''1.1'', [\<lparr>upload_time = '''', url = ''u''\<rparr>])]\<rparr>" "''pkg''"]
  by simp

text \<open>
  C12. The conversion does not depend on the iteration order of the map: for a
  document whose versions all list a file, any two orders of its entries give the same
  releases (as a multiset), one per version.
\<close>

theorem convert_order_independent:
  assumes "distinct (map fst es)" and "mset es' = mset es" and "\<forall>(v, rel) \<in> set es. rel \<noteq> []"
  shows "\<exists>rs rs'. convert pd \<lparr>releases = es\<rparr> n = Inr rs \<and> convert pd \<lparr>releases = es'\<rparr> n = Inr rs' \<and>
           mset (results rs') = mset (results rs) \<and> rs_len rs = length es"
proof -
  have d': "distinct (map fst es')"
    using assms(1,2) mset_eq_imp_distinct_iff[of "map fst es'" "map fst es"] by simp
  have ne': "\<forall>(v, rel) \<in> set es'. rel \<noteq> []"
    using assms(2,3) mset_eq_setD[OF assms(2)] by simp
  from convert_fresh[of "\<lparr>releases = es\<rparr>", simplified, OF assms(1,3)]
       convert_fresh[of "\<lparr>releases = es'\<rparr>", simplified, OF d' ne'] assms(2)
  show ?thesis by (simp add: rs_len_def)
qed

theorem convert_order_independent_witness:
  "distinct (map fst [(''1.0'', [\<lparr>upload_time = '''', url = ''a''\<rparr>]), (''2.0'', [\<lparr>upload_time = '''', url = ''b''\<rparr>])]) \<and>
   mset [(''2.0'', [\<lparr>upload_time = '''', url = ''b''\<rparr>]), (''1.0'', [\<lparr>upload_time = '''', url = ''a''\<rparr>])] =
     mset [(''1.0'', [\<lparr>upload_time = '''', url = ''a''\<rparr>]), (''2.0'', [\<lparr>upload_time = '''', url = ''b''\<rparr>])] \<and>
   list_all (\<lambda>e. snd e \<noteq> []) [(''1.0'', [\<lparr>upload_time = '''', url = ''a''\<rparr>]), (''2.0'', [\<lparr>upload_time = '''', url = ''b''\<rparr>])] \<and>
   (\<exists>rs rs'. convert (\<lambda>_. None) \<lparr>releases = [(''1.0'', [\<lparr>upload_time = '''', url = ''a''\<rparr>]),
                                              (''2.0'', [\<lparr>upload_time = '''', url = ''b''\<rparr>])]\<rparr> ''pkg'' = Inr rs \<and>
      convert (\<lambda>_. None) \<lparr>releases = [(''2.0'', [\<lparr>upload_time = '''', url = ''b''\<rparr>]),
                                    (''1.0'', [\<lparr>upload_time = '''', url = ''a''\<rparr>])]\<rparr> ''pkg'' = Inr rs' \<and>
      mset (results rs') = mset (results rs) \<and>
      rs_len rs = length [(''1.0'', [\<lparr>upload_time = '''', url = ''a''\<rparr>]), (''2.0'', [\<lparr>upload_time = '''', url = ''b''\<rparr>])])"
proof -
  let ?es = "[(''1.0'', [\<lparr>upload_time = '''', url = ''a''\<rparr>]), (''2.0'', [\<lparr>upload_time = '''', url = ''b''\<rparr>])]"
  let ?es' = "[(''2.0'', [\<lparr>upload_time = '''', url = ''b''\<rparr>]), (''1.0'', [\<lparr>upload_time = '''', url = ''a''\<rparr>])]"
  have d: "distinct (map fst ?es)" by simp
  have m: "mset ?es' = mset ?es" by simp
  have n: "\<forall>(v, rel) \<in> set ?es. rel \<noteq> []" by simp
  have l: "list_all (\<lambda>e. snd e \<noteq> []) ?es" by simp
  from convert_order_independent[OF d m n, of "\<lambda>_. None" "''pkg''"] d m l show ?thesis by blast
qed

text \<open>
  C29. \<open>Convert\<close> refines a map: when it returns, its result set, looked up by
  (name, version), is the map that sends each version of the document to the release
  built from the version's last file, the abstract meaning of the \<open>AddResult\<close>
  loop.
\<close>

theorem convert_refines_map:
  assumes "convert pd crs n = Inr rs"
  shows "rs_lookup rs = fold (\<lambda>e m. m((n, fst e) \<mapsto> entry_release pd n e)) (releases crs) Map.empty"
  using convert_loop_refines[of "new_result_set n" pd n "releases crs" rs] assms
  by (simp add: convert_def)

theorem convert_refines_map_witness:
  "convert (\<lambda>_. None) pypi_example ''pkg'' =
     Inr \<lparr>query = ''pkg'', results = [new_result ''pkg'' ''1.0'' ''https://x/pkg-1.0.tar.gz'' 0]\<rparr> \<and>
   rs_lookup \<lparr>query = ''pkg'', results = [new_result ''pkg'' ''1.0'' ''https://x/pkg-1.0.tar.gz'' 0]\<rparr>
     (''pkg'', ''1.0'') = Some (new_result ''pkg'' ''1.0'' ''https://x/pkg-1.0.tar.gz'' 0)"
proof -
  note h = pypi_example_converted
  from convert_refines_map[OF h]
  have "rs_lookup \<lparr>query = ''pkg'', results = [new_result ''pkg'' ''1.0'' ''https://x/pkg-1.0.tar.gz'' 0]\<rparr> =
        fold (\<lambda>e m. m((''pkg'', fst e) \<mapsto> entry_release (\<lambda>_. None) ''pkg'' e)) (releases pypi_example) Map.empty" .
  then have "rs_lookup \<lparr>query = ''pkg'', results = [new_result ''pkg'' ''1.0'' ''https://x/pkg-1.0.tar.gz'' 0]\<rparr>
     (''pkg'', ''1.0'') = Some (new_result ''pkg'' ''1.0'' ''https://x/pkg-1.0.tar.gz'' 0)"
    by (simp add: pypi_example_def entry_release_def zero_time_def)
  with h show ?thesis by blast
qed

end
