(* ===== verification/Releases_Cmd.thy ===== *)
theory Releases_Cmd
  imports Provider
begin

text \<open>
  The \<open>releases\<close> subcommand, src/cmd/releases.go, \<open>Execute\<close> (lines 52--90):
  with exactly one positional argument it probes every provider in registry order with
  \<open>Match\<close>, asks each matching one for its \<open>Releases\<close>, prints every successful
  result set, and finally reports whether anything was found. Its observable behaviour is
  the sequence of log lines (as events) and the exit code. A panic of a provider is not
  recovered: it ends the command. Flag parsing (\<open>flag.FlagSet.Parse\<close>) is library code:
  the model receives the positional arguments that remain after it.
\<close>

section \<open>Events and exit codes\<close>

datatype exit_code = Exit_good | Exit_usage

datatype log_event =
    Checking string          \<comment> \<open>\<open>"%s checking for match:"\<close>\<close>
  | No_match string          \<comment> \<open>\<open>"%s does not match."\<close>\<close>
  | Fetch_failed status      \<comment> \<open>\<open>"Failed to fetch releases, code: %d"\<close>\<close>
  | Printed "result list"    \<comment> \<open>\<open>rs.PrintAll()\<close>\<close>
  | Matches_found string     \<comment> \<open>\<open>"%s match(es) found."\<close>\<close>
  | Done_msg                 \<comment> \<open>\<open>"Done"\<close>\<close>
  | No_releases_msg          \<comment> \<open>\<open>"No releases found."\<close> (logged as fatal)\<close>

section \<open>The loop over the providers\<close>

text \<open>
  Lines 67--83, one provider per step; \<open>found\<close> is the loop's flag and \<open>ev\<close> the
  log so far. \<open>PrintAll\<close> on a \<open>nil\<close> result set would dereference \<open>nil\<close>.
\<close>

fun run_providers :: "provider list \<Rightarrow> string \<Rightarrow> bool \<Rightarrow> log_event list \<Rightarrow> (log_event list \<times> bool) go" where
  "run_providers [] q found ev = Inr (ev, found)"
| "run_providers (p # ps) q found ev =
     (let ev1 = ev @ [Checking (p_name p)]; n = p_match p q in
      if n = '''' then run_providers ps q found (ev1 @ [No_match (p_name p)])
      else case p_releases p n of
        Inl e \<Rightarrow> Inl e
      | Inr (rs, s) \<Rightarrow>
          (if s \<noteq> OK then run_providers ps q found (ev1 @ [Fetch_failed s])
           else case rs of
             None \<Rightarrow> Inl Nil_dereference
           | Some rs' \<Rightarrow> run_providers ps q True (ev1 @ [Printed (results rs'), Matches_found (p_name p)])))"

text \<open>\<open>Execute\<close>: \<open>USAGE\<close> unless there is exactly one argument; otherwise the loop
  and the final line. The code returns \<open>GOOD\<close> after the final line in both cases.\<close>

definition execute :: "provider list \<Rightarrow> string list \<Rightarrow> (log_event list \<times> exit_code) go" where
  "execute ps args =
     (if length args \<noteq> 1 then Inr ([], Exit_usage)
      else case run_providers ps (hd args) False [] of
        Inl e \<Rightarrow> Inl e
      | Inr (ev, found) \<Rightarrow> Inr (ev @ [if found then Done_msg else No_releases_msg], Exit_good))"

section \<open>Vocabulary\<close>

text \<open>A provider answers a query successfully when it matches it and its
  \<open>Releases\<close> on the canonical identifier reports \<open>OK\<close>; it is safe on the query
  when it does not match it, or its \<open>Releases\<close> returns without panicking and with a
  result set whenever it reports \<open>OK\<close>.\<close>

definition answers :: "provider \<Rightarrow> string \<Rightarrow> bool" where
  "answers p q = (p_match p q \<noteq> '''' \<and> (\<exists>rs. p_releases p (p_match p q) = Inr (rs, OK)))"

definition safe_on :: "provider \<Rightarrow> string \<Rightarrow> bool" where
  "safe_on p q = (p_match p q = '''' \<or>
     (\<exists>rs s. p_releases p (p_match p q) = Inr (rs, s) \<and> (s = OK \<longrightarrow> rs \<noteq> None)))"

definition answer_results :: "provider \<Rightarrow> string \<Rightarrow> result list list" where
  "answer_results p q =
     (if p_match p q = '''' then []
      else case p_releases p (p_match p q) of
        Inr (Some rs, OK) \<Rightarrow> [results rs]
      | _ \<Rightarrow> [])"

fun printed :: "log_event list \<Rightarrow> result list list" where
  "printed [] = []"
| "printed (Printed rs # ev) = rs # printed ev"
| "printed (_ # ev) = printed ev"

fun checked :: "log_event list \<Rightarrow> string list" where
  "checked [] = []"
| "checked (Checking n # ev) = n # checked ev"
| "checked (_ # ev) = checked ev"

section \<open>The specification's scenario\<close>

text \<open>Two providers that both match a query: an index that answers with one release
  and a feed whose upstream is unavailable; and a provider whose \<open>Releases\<close> panics.\<close>

definition scenario_release :: result where
  "scenario_release = new_result ''pkg'' ''1.0'' ''https://x/pkg-1.0.tar.gz'' zero_time"

definition index_ok :: provider where
  "index_ok = \<lparr>p_name = ''Index'', p_match = \<lambda>q. q,
                p_releases = \<lambda>n. Inr (Some (add_result scenario_release (new_result_set n)), OK)\<rparr>"

definition feed_down :: provider where
  "feed_down = \<lparr>p_name = ''Feed'', p_match = \<lambda>q. q, p_releases = \<lambda>n. Inr (None, Unavailable)\<rparr>"

definition panicking :: provider where
  "panicking = \<lparr>p_name = ''Panicking'', p_match = \<lambda>q. q, p_releases = \<lambda>n. Inl Index_out_of_range\<rparr>"

section \<open>Lemmas\<close>

lemma checked_append [simp]: "checked (xs @ ys) = checked xs @ checked ys"
  by (induction xs rule: checked.induct) auto

lemma printed_append [simp]: "printed (xs @ ys) = printed xs @ printed ys"
  by (induction xs rule: printed.induct) auto

lemma run_providers_step:
  assumes "run_providers (p # ps) q f ev = Inr res"
  shows "\<exists>ev1. run_providers ps q (f \<or> answers p q) ev1 = Inr res \<and>
           checked ev1 = checked ev @ [p_name p] \<and> printed ev1 = printed ev @ answer_results p q"
proof (cases "p_match p q = ''''")
  case True
  with assms show ?thesis by (auto simp: answers_def answer_results_def)
next
  case False
  then obtain rs s where r: "p_releases p (p_match p q) = Inr (rs, s)"
    using assms by (cases "p_releases p (p_match p q)") auto
  show ?thesis
  proof (cases "s = OK")
    case True
    with False r assms obtain rs' where "rs = Some rs'"
      by (cases rs) auto
    with True False r assms show ?thesis by (auto simp: answers_def answer_results_def)
  next
    case notOK: False
    with False r assms show ?thesis
      by (auto simp: answers_def answer_results_def split: option.splits status.splits)
  qed
qed

lemma run_providers_Inr:
  "run_providers ps q f ev = Inr (ev', f') \<Longrightarrow>
   f' = (f \<or> (\<exists>p \<in> set ps. answers p q)) \<and>
   checked ev' = checked ev @ map p_name ps \<and>
   printed ev' = printed ev @ concat (map (\<lambda>p. answer_results p q) ps)"
proof (induction ps arbitrary: f ev)
  case (Cons p ps)
  from run_providers_step[OF Cons.prems] obtain ev1
    where "run_providers ps q (f \<or> answers p q) ev1 = Inr (ev', f')"
      and "checked ev1 = checked ev @ [p_name p]" and "printed ev1 = printed ev @ answer_results p q"
    by blast
  with Cons.IH show ?case by fastforce
qed simp

lemma run_providers_total:
  "\<not> isl (run_providers ps q f ev) \<longleftrightarrow> (\<forall>p \<in> set ps. safe_on p q)"
proof (induction ps arbitrary: f ev)
  case (Cons p ps)
  show ?case
  proof (cases "p_match p q = ''''")
    case True
    with Cons show ?thesis by (simp add: safe_on_def)
  next
    case False
    show ?thesis
    proof (cases "p_releases p (p_match p q)")
      case (Inl e)
      with False show ?thesis by (simp add: safe_on_def)
    next
      case (Inr res)
      with False Cons.IH show ?thesis
        by (cases res) (auto simp: safe_on_def Let_def split: option.splits)
    qed
  qed
qed simp

lemma run_providers_append:
  "run_providers (ps1 @ ps2) q f ev =
     go_bind (run_providers ps1 q f ev) (\<lambda>(ev', f'). run_providers ps2 q f' ev')"
  by (induction ps1 arbitrary: f ev)
     (auto simp: Let_def split: sum.splits option.splits prod.splits)

lemma mset_concat_map:
  "mset (concat (map f xs)) = sum_mset (image_mset (\<lambda>x. mset (f x)) (mset xs))"
  by (induction xs) auto

lemma execute_one:
  "execute ps [q] =
     (case run_providers ps q False [] of
        Inl e \<Rightarrow> Inl e
      | Inr (ev, found) \<Rightarrow> Inr (ev @ [if found then Done_msg else No_releases_msg], Exit_good))"
  by (simp add: execute_def)

lemma execute_Inr:
  assumes "execute ps [q] = Inr (ev, code)"
  shows "code = Exit_good \<and>
         last ev = (if \<exists>p \<in> set ps. answers p q then Done_msg else No_releases_msg) \<and>
         checked ev = map p_name ps \<and>
         printed ev = concat (map (\<lambda>p. answer_results p q) ps)"
proof -
  from assms obtain ev0 f where r: "run_providers ps q False [] = Inr (ev0, f)"
    and ev: "ev = ev0 @ [if f then Done_msg else No_releases_msg]" and "code = Exit_good"
    by (auto simp: execute_one split: sum.splits)
  with run_providers_Inr[OF r] show ?thesis by auto
qed

lemma execute_scenario_down_ok:
  "execute [feed_down, index_ok] [''pkg''] =
     Inr ([Checking ''Feed'', Fetch_failed Unavailable, Checking ''Index'',
           Printed [scenario_release], Matches_found ''Index'', Done_msg], Exit_good)"
  by (simp add: execute_def feed_down_def index_ok_def add_result_def new_result_set_def)

section \<open>Properties\<close>

text \<open>
  C5. When the command runs to its end on one argument, it exits with
  \<open>GOOD\<close>, and its last line is "Done" exactly when some provider matched
  the query and answered \<open>OK\<close>, and "No releases found." otherwise.
\<close>

theorem execute_found_iff:
  assumes "execute ps [q] = Inr (ev, code)"
  shows "code = Exit_good \<and>
         last ev = (if \<exists>p \<in> set ps. answers p q then Done_msg else No_releases_msg)"
  using execute_Inr[OF assms] by simp

theorem execute_found_iff_witness:
  "execute [feed_down, index_ok] [''pkg''] =
     Inr ([Checking ''Feed'', Fetch_failed Unavailable, Checking ''Index'',
           Printed [scenario_release], Matches_found ''Index'', Done_msg], Exit_good) \<and>
   (\<exists>p \<in> set [feed_down, index_ok]. answers p ''pkg'')"
proof -
  from execute_found_iff[OF execute_scenario_down_ok]
  have "(\<exists>p \<in> set [feed_down, index_ok]. answers p ''pkg'')"
    by (simp split: if_splits)
  with execute_scenario_down_ok show ?thesis by simp
qed

text \<open>
  C6. A panic in a provider's \<open>Releases\<close> ends the whole command, wherever the
  provider stands in the registry: once the providers before it have returned, the
  panic is the command's outcome, and the providers after it are never asked, even one
  that would have answered. The specification requires that one adapter's failure never
  suppresses another's success.
\<close>

theorem execute_panic_aborts:
  assumes "\<forall>p' \<in> set ps1. safe_on p' q" and "p_match p q \<noteq> ''''" and "p_releases p (p_match p q) = Inl e"
  shows "execute (ps1 @ p # ps2) [q] = Inl e"
proof -
  from assms(1) run_providers_total[of ps1 q False "[]"] obtain ev f
    where "run_providers ps1 q False [] = Inr (ev, f)"
    by (cases "run_providers ps1 q False []") auto
  with assms(2,3) show ?thesis by (simp add: execute_def run_providers_append Let_def)
qed

theorem execute_panic_aborts_witness:
  "safe_on feed_down ''pkg'' \<and> p_match panicking ''pkg'' \<noteq> '''' \<and>
   p_releases panicking (p_match panicking ''pkg'') = Inl Index_out_of_range \<and>
   answers index_ok ''pkg'' \<and>
   execute [feed_down, panicking, index_ok] [''pkg''] = Inl Index_out_of_range"
proof -
  have s: "\<forall>p' \<in> set [feed_down]. safe_on p' ''pkg''" by (simp add: safe_on_def feed_down_def)
  have m: "p_match panicking ''pkg'' \<noteq> ''''"
    and r: "p_releases panicking (p_match panicking ''pkg'') = Inl Index_out_of_range"
    by (simp_all add: panicking_def)
  have a: "answers index_ok ''pkg''" by (simp add: answers_def index_ok_def)
  from execute_panic_aborts[OF s m r, of "[index_ok]"] s m r a show ?thesis by simp
qed

text \<open>
  C17. With no argument or more than one, the command prints nothing and returns
  \<open>USAGE\<close>.
\<close>

theorem execute_usage:
  "length args \<noteq> 1 \<Longrightarrow> execute ps args = Inr ([], Exit_usage)"
  by (simp add: execute_def)

theorem execute_usage_witness:
  "length [''a'', ''b''] \<noteq> 1 \<and> execute [index_ok] [''a'', ''b''] = Inr ([], Exit_usage)"
  using execute_usage[of "[''a'', ''b'']" "[index_ok]"] by simp

text \<open>
  C18. When no provider panics on the query, the command completes with
  \<open>GOOD\<close> and probes every provider, each once, in registry order.
\<close>

theorem execute_probes_all:
  assumes "\<forall>p \<in> set ps. safe_on p q"
  shows "\<exists>ev. execute ps [q] = Inr (ev, Exit_good) \<and> checked ev = map p_name ps"
proof -
  from assms obtain ev0 f where r: "run_providers ps q False [] = Inr (ev0, f)"
    using run_providers_total[of ps q False "[]"] by (cases "run_providers ps q False []") auto
  with run_providers_Inr[OF r] show ?thesis by (simp add: execute_one)
qed

theorem execute_probes_all_witness:
  "\<exists>ev. execute [feed_down, index_ok] [''pkg''] = Inr (ev, Exit_good) \<and>
        checked ev = [''Feed'', ''Index'']"
proof -
  have h: "\<forall>p \<in> set [feed_down, index_ok]. safe_on p ''pkg''"
    by (simp add: safe_on_def feed_down_def index_ok_def)
  from execute_probes_all[OF h] show ?thesis by (simp add: feed_down_def index_ok_def)
qed

text \<open>
  C20. The order of the registry does not change the outcome: reordering the providers
  gives the same exit code, the same final line and the same result sets (as a
  multiset), so the providers may as well be probed concurrently.
\<close>

theorem execute_order_independent:
  assumes "mset ps' = mset ps" and "execute ps [q] = Inr (ev, code)"
  shows "\<exists>ev'. execute ps' [q] = Inr (ev', code) \<and> last ev' = last ev \<and>
           mset (printed ev') = mset (printed ev)"
proof -
  from assms(2) have "\<not> isl (run_providers ps q False [])"
    by (auto simp: execute_one split: sum.splits)
  then have "\<forall>p \<in> set ps'. safe_on p q"
    using run_providers_total mset_eq_setD[OF assms(1)] by metis
  then obtain ev0 f where r: "run_providers ps' q False [] = Inr (ev0, f)"
    using run_providers_total[of ps' q False "[]"] by (cases "run_providers ps' q False []") auto
  then obtain ev' where e': "execute ps' [q] = Inr (ev', Exit_good)" by (simp add: execute_one)
  from execute_Inr[OF e'] execute_Inr[OF assms(2)] mset_eq_setD[OF assms(1)] assms(1)
  show ?thesis using e' by (simp add: mset_concat_map)
qed

theorem execute_order_independent_witness:
  "mset [index_ok, feed_down] = mset [feed_down, index_ok] \<and>
   execute [feed_down, index_ok] [''pkg''] =
     Inr ([Checking ''Feed'', Fetch_failed Unavailable, Checking ''Index'',
           Printed [scenario_release], Matches_found ''Index'', Done_msg], Exit_good) \<and>
   (\<exists>ev'. execute [index_ok, feed_down] [''pkg''] = Inr (ev', Exit_good) \<and> last ev' = Done_msg \<and>
          mset (printed ev') = {#[scenario_release]#})"
proof -
  have m: "mset [index_ok, feed_down] = mset [feed_down, index_ok]" by simp
  from execute_order_independent[OF m execute_scenario_down_ok] m execute_scenario_down_ok
  show ?thesis by auto
qed

end
