(* ===== verification/Cli.thy ===== *)
theory Cli
  imports Releases_Cmd
begin

text \<open>
  The command-line surface of the \<open>releases\<close> subcommand, src/cmd/releases.go:
  \<open>Flags\<close> (lines 33--38) builds a \<open>flag.FlagSet\<close> named \<open>releases\<close> with mode
  \<open>ExitOnError\<close>, no flags defined and \<open>Usage\<close> as its usage function; \<open>Short\<close>
  (lines 40--43) and \<open>Usage\<close> (lines 45--50) print the help text to standard error;
  \<open>Execute\<close> (lines 55--62) parses \<open>os.Args[2:]\<close> with that flag set before
  the argument count check. The parsing is the Go library's \<open>FlagSet.Parse\<close>,
  modelled for a flag set without flags: it stops at the first argument that is not a
  flag (or after \<open>--\<close>), and every flag is either \<open>-h\<close>/\<open>-help\<close> (usage, exit
  status 0) or an error (message and usage, exit status 2, the \<open>ExitOnError\<close>
  behaviour). The process output is the text written to standard error, the log events
  of Releases_Cmd and how the process ends.
\<close>

section \<open>Help text\<close>

definition nl :: char where
  "nl = CHR 0x0A"

definition short :: string where
  "short = ''Get all stable releases''"

text \<open>\<open>Usage\<close>: two \<open>print\<close> calls and \<open>PrintDefaults\<close> of a fresh flag set, which has
  no flags and prints nothing.\<close>

definition usage_text :: "string \<Rightarrow> string" where
  "usage_text argv0 =
     ''USAGE: '' @ argv0 @ '' releases <URL>'' @ [nl, nl] @
     ''DESCRIPTION: '' @ short @ [nl, nl]"

section \<open>Flag parsing\<close>

datatype flag_outcome =
    Flags_ok "string list"   \<comment> \<open>the positional arguments, \<open>flags.Args()\<close>\<close>
  | Flag_help                \<comment> \<open>\<open>ErrHelp\<close> after printing the usage\<close>
  | Flag_error string        \<comment> \<open>the message \<open>failf\<close> prints before the usage\<close>

text \<open>\<open>FlagSet.parseOne\<close> on the first argument, for a flag set without flags. An
  argument is a flag when it has at least two characters and starts with \<open>-\<close>;
  \<open>--\<close> ends the flags; the name is what follows one or two dashes, up to an
  \<open>=\<close>.\<close>

definition flag_parse :: "string list \<Rightarrow> flag_outcome" where
  "flag_parse args =
     (case args of
        [] \<Rightarrow> Flags_ok []
      | s # rest \<Rightarrow>
          (if length s < 2 \<or> hd s \<noteq> CHR ''-'' then Flags_ok args
           else if s = ''--'' then Flags_ok rest
           else
             (let name = (if s ! 1 = CHR ''-'' then drop 2 s else drop 1 s) in
              if name = [] \<or> hd name = CHR ''-'' \<or> hd name = CHR ''='' then
                Flag_error (''bad flag syntax: '' @ s)
              else
                (let nm = takeWhile (\<lambda>c. c \<noteq> CHR ''='') name in
                 if nm = ''help'' \<or> nm = ''h'' then Flag_help
                 else Flag_error (''flag provided but not defined: -'' @ nm)))))"

definition flag_like :: "string \<Rightarrow> bool" where
  "flag_like s = (2 \<le> length s \<and> hd s = CHR ''-'')"

section \<open>The subcommand as a process\<close>

datatype cli_exit =
    Returned exit_code   \<comment> \<open>\<open>Execute\<close> returns \<open>GOOD\<close> or \<open>USAGE\<close>\<close>
  | Os_exit nat          \<comment> \<open>\<open>os.Exit\<close> inside \<open>flags.Parse\<close>\<close>

text \<open>The whole subcommand on \<open>os.Args\<close>: \<open>os.Args[2:]\<close> (a slice that panics
  when there are fewer than two arguments), the flag parse, then \<open>Execute\<close>'s check
  and loop. The result is the standard-error text, the log events and the exit.\<close>

definition releases_cli :: "provider list \<Rightarrow> string list \<Rightarrow> (string \<times> log_event list \<times> cli_exit) go" where
  "releases_cli ps argv =
     (if length argv < 2 then Inl Index_out_of_range
      else case flag_parse (drop 2 argv) of
        Flags_ok rest \<Rightarrow> go_bind (execute ps rest) (\<lambda>(ev, code). Inr ([], ev, Returned code))
      | Flag_help \<Rightarrow> Inr (usage_text (argv ! 0), [], Os_exit 0)
      | Flag_error msg \<Rightarrow> Inr (msg @ [nl] @ usage_text (argv ! 0), [], Os_exit 2))"

section \<open>Lemmas\<close>

lemma flag_parse_flag:
  "flag_like s \<Longrightarrow> s \<noteq> ''--'' \<Longrightarrow> flag_parse (s # rest) = Flag_help \<or> (\<exists>msg. flag_parse (s # rest) = Flag_error msg)"
  by (auto simp: flag_parse_def flag_like_def Let_def)

lemma flag_parse_positional:
  "\<not> flag_like q \<Longrightarrow> flag_parse (q # rest) = Flags_ok (q # rest)"
  by (auto simp: flag_parse_def flag_like_def)

lemma flag_parse_dashdash: "flag_parse (''--'' # rest) = Flags_ok rest"
  by (simp add: flag_parse_def)

lemma releases_cli_ok:
  "flag_parse args = Flags_ok rest \<Longrightarrow>
   releases_cli ps (a0 # c # args) = map_sum id (\<lambda>(ev, code). ([], ev, Returned code)) (execute ps rest)"
  by (cases "execute ps rest") (auto simp: releases_cli_def)

section \<open>Properties\<close>

text \<open>
  C25. Any flag before the query (an argument of two or more characters starting with
  \<open>-\<close>, other than \<open>--\<close>) ends the process inside \<open>flags.Parse\<close> with exit status
  0 or 2, having written the usage text to standard error and probed no provider.
\<close>

theorem cli_flag_aborts:
  assumes "flag_like s" and "s \<noteq> ''--''"
  shows "\<exists>out n. releases_cli ps (a0 # c # s # rest) = Inr (out, [], Os_exit n) \<and> n \<in> {0, 2} \<and>
                suffix (usage_text a0) out"
  using flag_parse_flag[OF assms, of rest]
  by (auto simp: releases_cli_def suffix_def)

theorem cli_flag_aborts_witness:
  "flag_like ''-v'' \<and> ''-v'' \<noteq> ''--'' \<and>
   releases_cli [index_ok] [''cuppa'', ''releases'', ''-v'', ''pkg''] =
     Inr (''flag provided but not defined: -v'' @ [nl] @ usage_text ''cuppa'', [], Os_exit 2)"
proof -
  have h: "flag_like ''-v''" "''-v'' \<noteq> ''--''" by (simp_all add: flag_like_def)
  from cli_flag_aborts[OF h, of "[index_ok]" "''cuppa''" "''releases''" "[''pkg'']"]
  have "\<exists>out n. releases_cli [index_ok] [''cuppa'', ''releases'', ''-v'', ''pkg''] = Inr (out, [], Os_exit n)" by blast
  moreover have "releases_cli [index_ok] [''cuppa'', ''releases'', ''-v'', ''pkg''] =
     Inr (''flag provided but not defined: -v'' @ [nl] @ usage_text ''cuppa'', [], Os_exit 2)"
    by (simp add: releases_cli_def flag_parse_def)
  ultimately show ?thesis using h by blast
qed

text \<open>
  C26. The query reaches \<open>Execute\<close> unchanged after \<open>--\<close>, even when it starts
  with a dash; a query that does not look like a flag needs no \<open>--\<close>.
\<close>

theorem cli_query_passed:
  "releases_cli ps [a0, c, ''--'', q] = map_sum id (\<lambda>(ev, code). ([], ev, Returned code)) (execute ps [q]) \<and>
   (\<not> flag_like q \<longrightarrow> releases_cli ps [a0, c, q] = releases_cli ps [a0, c, ''--'', q])"
  by (simp add: releases_cli_ok flag_parse_dashdash flag_parse_positional)

theorem cli_query_passed_witness:
  "releases_cli [index_ok] [''cuppa'', ''releases'', ''pkg''] =
   releases_cli [index_ok] [''cuppa'', ''releases'', ''--'', ''pkg'']"
proof -
  have h: "\<not> flag_like ''pkg''" by (simp add: flag_like_def)
  from cli_query_passed[of "[index_ok]" "''cuppa''" "''releases''" "''pkg''"] h show ?thesis by blast
qed

text \<open>
  C27. Flag parsing stops at the query: an argument after it is positional, whatever it
  looks like, so the subcommand returns \<open>USAGE\<close> (two positional arguments) without
  logging anything.
\<close>

theorem cli_trailing_flag_usage:
  "\<not> flag_like q \<Longrightarrow> releases_cli ps [a0, c, q, x] = Inr ([], [], Returned Exit_usage)"
  by (simp add: releases_cli_ok flag_parse_positional execute_def)

theorem cli_trailing_flag_usage_witness:
  "\<not> flag_like ''pkg'' \<and> releases_cli [index_ok] [''cuppa'', ''releases'', ''pkg'', ''-v''] = Inr ([], [], Returned Exit_usage)"
proof -
  have h: "\<not> flag_like ''pkg''" by (simp add: flag_like_def)
  from cli_trailing_flag_usage[OF h] h show ?thesis by blast
qed

end
