(* ===== verification/Registry.thy ===== *)
theory Registry
  imports PyPI SourceForge Cli
begin

text \<open>
  The provider registry \<open>providers.All()\<close>: the fixed list of the adapters compiled
  into the program, which the command walks in order. It is not under src/ and is
  modelled from the specification (section 4.3) with the two adapters of this
  repository, in the alphabetical order of their packages. The theory also says on which
  queries each adapter is safe for the command (it returns, and with a result set when
  it reports \<open>OK\<close>), so that the whole program can be characterised: it panics
  exactly when the PyPI index lists a version without files for the identifier its
  \<open>Match\<close> returns.
\<close>

section \<open>The registry\<close>

definition providers_all ::
  "(string \<Rightarrow> string) \<Rightarrow> (string \<Rightarrow> py_releases http_result) \<Rightarrow> (string \<Rightarrow> time option) \<Rightarrow>
   (string \<Rightarrow> feed http_result) \<Rightarrow> (string \<Rightarrow> time option) \<Rightarrow> provider list" where
  "providers_all pm pget pd sget sp = [pypi_provider pm pget pd, sf_provider sget sp]"

section \<open>Safety of the adapters\<close>

lemma convert_panics_list_ex: "isl (convert pd crs n) \<longleftrightarrow> list_ex (\<lambda>e. snd e = []) (releases crs)"
  by (force simp: convert_def convert_loop_panics list_ex_iff)

lemma pypi_provider_safe_on:
  "safe_on (pypi_provider pm pget pd) q \<longleftrightarrow>
   \<not> (pm q \<noteq> '''' \<and> (\<exists>crs. pget (pm q) = Http_response 200 (Some crs) \<and>
                               list_ex (\<lambda>e. snd e = []) (releases crs)))"
proof (cases "pget (pm q)")
  case Transport_error
  then show ?thesis by (simp add: safe_on_def pypi_provider_def pypi_releases_def)
next
  case (Http_response code body)
  show ?thesis
  proof (cases "code = 200 \<and> body \<noteq> None")
    case False
    with Http_response show ?thesis
      by (auto simp: safe_on_def pypi_provider_def pypi_releases_def translate_status_OK_iff)
  next
    case True
    then obtain crs where b: "body = Some crs" by auto
    with True Http_response show ?thesis
      using convert_panics_list_ex[of pd crs "pm q"]
      by (cases "convert pd crs (pm q)")
         (auto simp: safe_on_def pypi_provider_def pypi_releases_def)
  qed
qed

lemma sf_provider_safe_on: "safe_on (sf_provider get p) q"
proof (cases "sf_match q = ''''")
  case True
  then show ?thesis by (simp add: safe_on_def sf_provider_def)
next
  case False
  from sf_match_captures[OF False] obtain sm where sm: "sf_captures (sf_match q) = Inr sm"
    by (cases "sf_captures q") auto
  then have "\<not> isl (sf_releases get p (sf_match q))"
    by (simp add: sf_releases_captured split: http_result.splits option.splits)
  then obtain rs s where r: "sf_releases get p (sf_match q) = Inr (rs, s)"
    by (cases "sf_releases get p (sf_match q)") auto
  have "s = OK \<longrightarrow> rs \<noteq> None"
    using r by (auto dest: sf_releases_OK_source)
  with r show ?thesis by (simp add: safe_on_def sf_provider_def)
qed

section \<open>The command over the registry\<close>

lemma execute_total_iff:
  "isl (execute ps args) \<longleftrightarrow> (\<exists>q. args = [q] \<and> \<not> (\<forall>p \<in> set ps. safe_on p q))"
proof (cases "length args = 1")
  case False
  then show ?thesis by (auto simp: execute_def)
next
  case True
  then obtain q where args: "args = [q]" by (cases args) auto
  have "isl (execute ps [q]) \<longleftrightarrow> isl (run_providers ps q False [])"
    by (cases "run_providers ps q False []") (auto simp: execute_one)
  with args run_providers_total[of ps q False "[]"] show ?thesis by blast
qed

lemma execute_sf_total:
  "\<exists>ev code. execute [sf_provider get p] args = Inr (ev, code)"
proof -
  have "\<not> isl (execute [sf_provider get p] args)"
    by (simp add: execute_total_iff sf_provider_safe_on)
  then show ?thesis by (cases "execute [sf_provider get p] args") auto
qed

lemma execute_registry_panics:
  "isl (execute (providers_all pm pget pd sget sp) args) \<longleftrightarrow>
   (\<exists>q crs. args = [q] \<and> pm q \<noteq> '''' \<and> pget (pm q) = Http_response 200 (Some crs) \<and>
            list_ex (\<lambda>e. snd e = []) (releases crs))"
  by (auto simp: execute_total_iff providers_all_def pypi_provider_safe_on sf_provider_safe_on)

lemma releases_cli_isl:
  "2 \<le> length argv \<Longrightarrow>
   isl (releases_cli ps argv) \<longleftrightarrow> (\<exists>rest. flag_parse (drop 2 argv) = Flags_ok rest \<and> isl (execute ps rest))"
  by (cases "flag_parse (drop 2 argv)") (auto simp: releases_cli_def go_bind_isl split: prod.splits)

section \<open>Properties\<close>

text \<open>
  C19. The whole program over the registry, from \<open>os.Args\<close> through flag parsing and
  \<open>Execute\<close> to both adapters, panics exactly when flag parsing leaves one query, the
  PyPI adapter's \<open>Match\<close> accepts it, and the index answers 200 with a document that
  lists a version without files. SourceForge never panics, and no other input makes the
  program panic.
\<close>

theorem registry_cli_panics_iff:
  assumes "2 \<le> length argv"
  shows "isl (releases_cli (providers_all pm pget pd sget sp) argv) \<longleftrightarrow>
         (\<exists>q crs. flag_parse (drop 2 argv) = Flags_ok [q] \<and> pm q \<noteq> '''' \<and>
            pget (pm q) = Http_response 200 (Some crs) \<and> list_ex (\<lambda>e. snd e = []) (releases crs))"
  using releases_cli_isl[OF assms] execute_registry_panics by auto

theorem registry_cli_panics_iff_witness:
  "2 \<le> length [''cuppa'', ''releases'', ''pkg''] \<and>
   isl (releases_cli (providers_all (\<lambda>q. q) (\<lambda>_. Http_response 200 (Some \<lparr>releases = [(''1.0'', [])]\<rparr>))
          (\<lambda>_. None) (\<lambda>_. Transport_error) (\<lambda>_. None)) [''cuppa'', ''releases'', ''pkg''])"
proof -
  have h: "2 \<le> length [''cuppa'', ''releases'', ''pkg'']" by simp
  have f: "flag_parse (drop 2 [''cuppa'', ''releases'', ''pkg'']) = Flags_ok [''pkg'']"
    by (simp add: flag_parse_def flag_like_def)
  from registry_cli_panics_iff[of "[''cuppa'', ''releases'', ''pkg'']" "\<lambda>q. q"
         "\<lambda>_. Http_response 200 (Some \<lparr>releases = [(''1.0'', [])]\<rparr>)" "\<lambda>_. None"
         "\<lambda>_. Transport_error" "\<lambda>_. None"] h f
  show ?thesis by simp
qed

end
