(* ===== verification/Spec2Isabelle.thy ===== *)
theory Spec2Isabelle
  imports SourceForge_IO Registry
begin

text \<open>
  Verification development of cuppa (src/), a command-line tool that looks up the
  published releases of a package on upstream hosting services.

  \<^bold>\<open>The program.\<close> The \<open>releases\<close> subcommand (src/cmd/releases.go, \<open>Execute\<close>)
  takes one package identifier and walks the provider registry in order. Each provider
  (an adapter for one hosting service) implements \<open>Name\<close>, \<open>Match\<close> and
  \<open>Releases\<close>. \<open>Match\<close> returns the identifier the provider understands, or the
  empty string. \<open>Releases\<close> fetches the service's listing over HTTP, classifies the
  HTTP status, decodes the body and converts it into a result set, one result per
  (name, version). Two adapters are under src/: SourceForge
  (src/providers/sourceforge/provider.go, which reads an RSS feed and recognises
  tarball links with two regular expressions) and the conversion half of PyPI
  (src/providers/pypi/releases.go, which converts the JSON index document).

  \<^bold>\<open>Theories and their correspondence to the code.\<close>
  \<^item> Prelude: Go panics as values (\<open>'a go = go_panic + 'a\<close>, \<open>Inl\<close> the panic), the
    bounds-checked two-element swap \<open>go_swap\<close> (Go's \<open>sm[1], sm[3] = sm[3], sm[1]\<close>),
    and generic facts about suffixes.
  \<^item> Go_Regexp: the part of Go's \<open>regexp\<close> library that the adapter calls. The syntax
    is \<open>re\<close> (\<open>regexp.MustCompile\<close> of the two grammars). The matcher \<open>mt\<close> is a
    backtracking engine over a continuation list. \<open>mt_all\<close> is the reference
    list-of-successes semantics.
  \<^item> Regexp_Lang: a declarative, executable language semantics \<open>lm r w t\<close> ("\<open>r\<close>
    matches \<open>w\<close> followed by \<open>t\<close>"), and the proofs that the matcher is sound
    (every result, with every capture it records) and complete for it.
  \<^item> Go_Find: \<open>FindStringSubmatch\<close>. \<open>search\<close> tries each start position from the
    left. \<open>find_submatch\<close> returns \<open>[]\<close> for Go's \<open>nil\<close>, otherwise one string per
    group, with the empty string for a group that did not take part. \<open>longest_match\<close>
    is the matcher-free reading of an end-anchored match: the longest suffix of the
    input in the expression's language.
  \<^item> Results: the \<open>results\<close> package, which is not under src/ and is modelled from the
    specification. \<open>Result\<close> is the record \<open>result\<close> and \<open>ResultSet\<close> is the record
    \<open>result_set\<close>. \<open>AddResult\<close> (\<open>add_result\<close>) overwrites an entry with the same
    (name, version) and appends otherwise. \<open>First\<close> (\<open>rs_first\<close>) is \<open>None\<close> on
    the empty set.
  \<^item> Provider: the interface as a record of functions \<open>provider\<close>, the transport
    outcome \<open>http_result\<close> (a transport error, or a status code and the decoded body,
    \<open>None\<close> when decoding failed), and the status switch \<open>translate_status\<close>.
  \<^item> SourceForge: every function of provider.go. The grammars are \<open>tarball_regex\<close>
    and \<open>project_regex\<close>. The feed URL is \<open>api_url\<close>. \<open>toResults\<close> is
    \<open>to_results\<close>, \<open>Latest\<close> is \<open>sf_latest\<close>, \<open>Match\<close> is \<open>sf_match\<close> and
    \<open>Releases\<close> is \<open>sf_releases\<close>. \<open>sf_captures\<close> is the grammar fallback with
    its swap, which panics on a \<open>nil\<close> slice. \<open>http.Get\<close> with \<open>xml.Decode\<close>
    (the parameter \<open>get\<close>) and \<open>time.Parse\<close> (the parameter \<open>p\<close>) are inputs of
    the model.
  \<^item> SourceForge_IO: \<open>Releases\<close> again, with its effects: the request, the error
    lines on standard error and the deferred \<open>resp.Body.Close()\<close>.
  \<^item> PyPI: \<open>ConvertURLS\<close> (\<open>convert_urls\<close>, where \<open>cr[len(cr)-1]\<close> panics on
    an empty list) and \<open>Convert\<close> (\<open>convert\<close>). Go's map is an association list in
    iteration order, and the theorems hold for every order. The provider's
    \<open>Releases\<close> is not under src/ and is modelled from the specification
    (\<open>pypi_releases\<close>). Its \<open>Match\<close> is a parameter.
  \<^item> Releases_Cmd: \<open>Execute\<close> as \<open>execute\<close>, with its provider loop
    \<open>run_providers\<close>. Its observable behaviour is a list of \<open>log_event\<close>s (one per
    log line) and an \<open>exit_code\<close>; a provider's panic propagates as \<open>Inl\<close>.
  \<^item> Cli: \<open>Flags\<close>, \<open>Short\<close>, \<open>Usage\<close> and the parse of \<open>os.Args[2:]\<close> in
    \<open>Execute\<close>. \<open>releases_cli\<close> is the subcommand as a process: standard-error text,
    log events, and either \<open>Execute\<close>'s return code or an \<open>os.Exit\<close> status.
  \<^item> Registry: \<open>providers.All()\<close> as \<open>providers_all\<close>, which is not under src/
    and is modelled from the specification (section 4.3) as the list of the two
    adapters of this repository, PyPI before SourceForge. It also holds each
    adapter's safety on a query (\<open>pypi_provider_safe_on\<close>,
    \<open>sf_provider_safe_on\<close>) and the characterisation of a panic of the whole
    program.
  \<^item> This theory: properties that span the adapters and the command.

  \<^bold>\<open>What the lemmas show.\<close>
  \<^item> Refinement of the language semantics: \<open>FindStringSubmatch\<close> finds a match exactly
    when one exists (C21). The match it returns is leftmost (C22). Each group that
    takes part in every match reports a substring its sub-expression matches (C23).
    Every version SourceForge reports is matched by the version grammar (C24).
    The budget of a repetition is enough (lemma \<open>mt_repetition_budget\<close>), and the
    effect model projects to the pure one (lemma \<open>sf_releases_io_result\<close>).
  \<^item> SourceForge: \<open>Releases\<close> on every branch, errors included (C2, C3, C14). OK
    only with a non-empty set (C4). \<open>toResults\<close> is sound (C15), lists one release
    per version in the order of first appearance (C8), and lets the last item win (C7).
    \<open>Latest\<close> is total (C16), and reports the first matching version with the data
    of its last item (C11). \<open>Match\<close> refines the specification
    \<open>sf_match_spec\<close>: the longest suffix of the query in the strict grammar's
    language, else in the loose one's (C9). After a match of the loose grammar,
    \<open>Releases\<close> requests the feed of the artifact instead of the project (C13).
    The response body is released exactly once on every path that has one (C28).
  \<^item> PyPI: exactly when \<open>Convert\<close> panics (C10). It is independent of the map's
    iteration order (C12). \<open>Convert\<close> refines a map from versions to releases (C29).
  \<^item> Command: usage (C17). The final line and exit code (C5). Every provider is
    probed when none panics (C18). Independence of registry order (C20). A panic of a
    provider, wherever it stands, aborts the run (C6).
  \<^item> Command line: a flag before the query exits inside \<open>flags.Parse\<close> with status 0 or
    2 (C25). \<open>--\<close> passes any query (C26). An argument after the query gives
    \<open>USAGE\<close> (C27).
  \<^item> Across components: the command's call \<open>Releases(Match(q))\<close> never panics for
    SourceForge (C1). The whole program over the registry panics exactly when PyPI
    matches the query and its index lists a version without files (C19). The whole
    subcommand process with SourceForge never panics (C30).

  \<^bold>\<open>Bounds and fuel.\<close> The only loop that could run forever is a repetition whose
  body matches the empty string. As Go's engine does, each iteration must consume
  input (the \<open>Progress\<close> item). A repetition is entered with a budget of
  \<open>length s\<close> iterations, which always suffices, because each iteration consumes at
  least one character. The lemma \<open>mt_repetition_budget\<close> proves that a larger
  budget gives the same result. Hence
  \<open>mt\<close> is a total function, with termination by a weight measure, and no fuel
  remains observable.

  \<^bold>\<open>Not modelled.\<close>
  \<^item> The logger (waterlog setup, colours, and whether \<open>Fatalln\<close> exits the process):
    library I/O. Log lines are recorded as events.
  \<^item> The exit status of \<open>-h\<close>/\<open>-help\<close> is 0 as in current Go (\<open>flag\<close> package);
    Go before 1.15 exited with 2. No claim depends on the difference.
  \<^item> The registry's source is not under src/. It is modelled from the specification,
    and the command's lemmas hold for every provider list. The order of the two adapters
    changes no claim: C19 is symmetric in them, and C20 proves the exit code, final
    line and printed result sets independent of the order.
  \<^item> PyPI's \<open>Match\<close>, and the URL its \<open>Releases\<close> requests: not given in the
    sources or in the specification. \<open>Match\<close> is a parameter, and the request is
    the parameter \<open>get\<close> applied to the identifier.
  \<^item> HTTP, XML/JSON decoding and date parsing: library calls, taken as parameters.
  \<^item> Regular-expression features the grammars do not use. A string is a list of 8-bit
    characters and \<open>.\<close> matches one of them, while Go's \<open>.\<close> matches one UTF-8
    rune: the two differ on non-ASCII input only, and no claim depends on it.
\<close>

section \<open>Properties across components\<close>

text \<open>
  C1. For every query the SourceForge adapter's \<open>Match\<close> accepts, \<open>Releases\<close>
  applied to the canonical identifier that \<open>Match\<close> returns behaves exactly as on the
  query itself (same grammar, same captures, same feed request) and never panics: the
  specification's "if \<open>A.Match(q)\<close> returns a non-empty \<open>s\<close>, then
  \<open>A.Releases(s)\<close> must not fail with a contract violation".
\<close>

theorem sf_match_releases_consistent:
  assumes "sf_match q \<noteq> ''''"
  shows "sf_releases get p (sf_match q) = sf_releases get p q \<and> \<not> isl (sf_releases get p q)"
proof -
  from sf_match_captures[OF assms] obtain sm
    where eq: "sf_captures (sf_match q) = sf_captures q" and sm: "sf_captures q = Inr sm"
    by (cases "sf_captures q") auto
  have "\<not> isl (sf_releases get p q)"
    using sm by (simp add: sf_releases_captured split: http_result.splits option.splits)
  with eq show ?thesis by (simp add: sf_releases_def)
qed

theorem sf_match_releases_consistent_witness:
  "sf_match sf_example_link \<noteq> '''' \<and>
   sf_releases (\<lambda>_. Transport_error) (\<lambda>_. None) (sf_match sf_example_link) =
     sf_releases (\<lambda>_. Transport_error) (\<lambda>_. None) sf_example_link \<and>
   \<not> isl (sf_releases (\<lambda>_. Transport_error) (\<lambda>_. None) sf_example_link)"
proof -
  have h: "sf_match sf_example_link \<noteq> ''''" unfolding sf_example_link_def by code_simp
  from sf_match_releases_consistent[OF h] h show ?thesis by (intro conjI) simp_all
qed

text \<open>
  An example of the PyPI conversion's panic and the command's lack of recovery
  together: when the index lists a version without files, the command panics before it
  asks SourceForge, although SourceForge answers the same query with a release.
\<close>

lemma pypi_empty_version_aborts_command:
  "answers (sf_provider (\<lambda>_. Http_response 200 (Some sf_example_feed)) (\<lambda>_. None)) sf_example_link \<and>
   execute [pypi_provider (\<lambda>q. q) (\<lambda>_. Http_response 200 (Some \<lparr>releases = [(''1.0'', [])]\<rparr>)) (\<lambda>_. None),
            sf_provider (\<lambda>_. Http_response 200 (Some sf_example_feed)) (\<lambda>_. None)]
           [sf_example_link] = Inl Index_out_of_range"
proof -
  have m: "sf_match sf_example_link = sf_example_link" unfolding sf_example_link_def by code_simp
  have "sf_releases (\<lambda>_. Http_response 200 (Some sf_example_feed)) (\<lambda>_. None) sf_example_link =
          Inr (Some (to_results (\<lambda>_. None) sf_example_feed ''bar''), OK)"
    using sf_example_captures sf_example_feed_ok
    by (simp add: sf_releases_captured to_results_empty_iff item_ok_def)
  with m have a: "answers (sf_provider (\<lambda>_. Http_response 200 (Some sf_example_feed)) (\<lambda>_. None)) sf_example_link"
    by (simp add: answers_def sf_provider_def sf_example_link_def)
  have "execute [pypi_provider (\<lambda>q. q) (\<lambda>_. Http_response 200 (Some \<lparr>releases = [(''1.0'', [])]\<rparr>)) (\<lambda>_. None),
            sf_provider (\<lambda>_. Http_response 200 (Some sf_example_feed)) (\<lambda>_. None)]
           [sf_example_link] = Inl Index_out_of_range"
    by (simp add: execute_def pypi_provider_def pypi_releases_def convert_def convert_urls_def
                  sf_example_link_def)
  with a show ?thesis by simp
qed

text \<open>
  C30. The whole subcommand, from \<open>os.Args\<close> through flag parsing and \<open>Execute\<close>
  to the SourceForge adapter, never panics once \<open>os.Args\<close> holds the program and
  subcommand names: it ends with a return code or an exit status on every input.
\<close>

theorem releases_cli_sf_never_panics:
  assumes "2 \<le> length argv"
  shows "\<not> isl (releases_cli [sf_provider get p] argv)"
proof (cases "flag_parse (drop 2 argv)")
  case (Flags_ok rest)
  from execute_sf_total[of get p rest] obtain ev code
    where "execute [sf_provider get p] rest = Inr (ev, code)" by blast
  with assms Flags_ok show ?thesis by (simp add: releases_cli_def)
next
  case Flag_help
  with assms show ?thesis by (simp add: releases_cli_def)
next
  case (Flag_error msg)
  with assms show ?thesis by (simp add: releases_cli_def)
qed

theorem releases_cli_sf_never_panics_witness:
  "2 \<le> length [''cuppa'', ''releases'', sf_example_link] \<and>
   \<not> isl (releases_cli [sf_provider (\<lambda>_. Http_response 404 None) (\<lambda>_. None)] [''cuppa'', ''releases'', sf_example_link])"
proof -
  have h: "2 \<le> length [''cuppa'', ''releases'', sf_example_link]" by simp
  from releases_cli_sf_never_panics[OF h] h show ?thesis by blast
qed

end
